theory Spec2Isabelle
  imports Main "HOL-Library.Word"
begin

unbundle bit_operations_syntax

section \<open>Python values\<close>

text \<open>
  A Python \<open>str\<close> is a sequence of Unicode code points; it is modelled as the list of
  its code points, so that every string the program can receive is covered (a cell of
  the sheet may hold any Unicode text). \<open>str\<close> turns an ASCII literal of the source
  into that representation.
\<close>

type_synonym pystr = "nat list"

definition str :: "string \<Rightarrow> pystr" where
  "str cs = map of_char cs"

text \<open>
  \<open>str.isspace\<close> for one code point: the code points CPython classifies as whitespace
  (bidirectional class WS, B or S, or category Zs).
\<close>

definition py_isspace :: "nat \<Rightarrow> bool" where
  "py_isspace c \<longleftrightarrow>
     (9 \<le> c \<and> c \<le> 13) \<or> (28 \<le> c \<and> c \<le> 32) \<or> c = 133 \<or> c = 160 \<or> c = 5760 \<or>
     (8192 \<le> c \<and> c \<le> 8202) \<or> c = 8232 \<or> c = 8233 \<or> c = 8239 \<or> c = 8287 \<or> c = 12288"

text \<open>\<open>s.strip()\<close>: whitespace removed at both ends.\<close>

definition py_strip :: "pystr \<Rightarrow> pystr" where
  "py_strip s = rev (dropWhile py_isspace (rev (dropWhile py_isspace s)))"

text \<open>
  \<open>s.replace(old, new)\<close>: the occurrences of \<open>old\<close> are found from the left and do not
  overlap. With an empty \<open>old\<close> Python puts \<open>new\<close> before every character and at the
  end.
\<close>

function py_replace :: "'a list \<Rightarrow> 'a list \<Rightarrow> 'a list \<Rightarrow> 'a list" where
  "py_replace old new s =
     (if old = [] then new @ concat (map (\<lambda>c. c # new) s)
      else if s = [] then []
      else if take (length old) s = old then new @ py_replace old new (drop (length old) s)
      else hd s # py_replace old new (tl s))"
  by pat_completeness auto
termination
  by (relation "measure (\<lambda>(old, new, s). length s)") auto

declare py_replace.simps [simp del]

text \<open>
  A value of the Python program: what \<open>json.loads\<close> can return, what a cell of the
  sheet holds and what \<open>dict.get\<close> gives. A float is its IEEE 754 binary64 bit pattern.
  A dict from JSON is the list of its items; \<open>dict.get\<close> reads it with \<open>map_of\<close>.
\<close>

datatype pyval =
    PNone
  | PBool bool
  | PInt int
  | PFloat "64 word"
  | PStr pystr
  | PList "pyval list"
  | PDict "(pystr \<times> pyval) list"

text \<open>
  The exceptions the program can meet, one name for each source. All of them are
  subclasses of \<open>Exception\<close>, the class the handler of \<open>analyze_with_ai\<close> catches; an
  interrupt from outside the program is not modelled.
\<close>

datatype exn =
    CredentialsError
  | HttpError
  | GenerationError
  | JSONDecodeError
  | AttributeError
  | TypeError
  | KeyError
  | DatabaseError
  | RequestException
  | UnicodeEncodeError
  | ProgrammingError
  | OverflowError

text \<open>Truth value testing (\<open>if not x\<close>).\<close>

fun truthy :: "pyval \<Rightarrow> bool" where
  "truthy PNone = False"
| "truthy (PBool b) = b"
| "truthy (PInt n) = (n \<noteq> 0)"
| "truthy (PFloat w) = (w AND 0x7FFFFFFFFFFFFFFF \<noteq> 0)"
| "truthy (PStr s) = (s \<noteq> [])"
| "truthy (PList xs) = (xs \<noteq> [])"
| "truthy (PDict kvs) = (kvs \<noteq> [])"

text \<open>
  \<open>x < 4\<close> for a float \<open>x\<close>: false for a NaN, true for every other value with the sign
  bit set, and for the rest the order of the values is the order of the bit patterns
  (4.0 is \<open>0x4010000000000000\<close>).
\<close>

definition float_is_nan :: "64 word \<Rightarrow> bool" where
  "float_is_nan w \<longleftrightarrow> w AND 0x7FFFFFFFFFFFFFFF > 0x7FF0000000000000"

definition float_lt_4 :: "64 word \<Rightarrow> bool" where
  "float_lt_4 w \<longleftrightarrow> \<not> float_is_nan w \<and> (bit w 63 \<or> w < 0x4010000000000000)"

text \<open>
  \<open>x < 4\<close> in Python 3: defined between numbers (a bool is the integer 0 or 1), a
  \<open>TypeError\<close> for \<open>None\<close>, a string, a list or a dict.
\<close>

fun py_lt_4 :: "pyval \<Rightarrow> exn + bool" where
  "py_lt_4 (PInt n) = Inr (n < 4)"
| "py_lt_4 (PBool b) = Inr True"
| "py_lt_4 (PFloat w) = Inr (float_lt_4 w)"
| "py_lt_4 v = Inl TypeError"

text \<open>
  \<open>d.get(k, default)\<close> on a value: only a dict has the method; on anything else the
  attribute lookup raises.
\<close>

fun py_get :: "pyval \<Rightarrow> pystr \<Rightarrow> pyval \<Rightarrow> exn + pyval" where
  "py_get (PDict kvs) k d = Inr (case map_of kvs k of None \<Rightarrow> d | Some v \<Rightarrow> v)"
| "py_get v k d = Inl AttributeError"

text \<open>
  UTF-8 encodes every code point but the surrogates (U+D800 to U+DFFF). A string from
  \<open>json.loads\<close> may hold one, from an escape such as \<open>\ud800\<close>.
\<close>

definition is_surrogate :: "nat \<Rightarrow> bool" where
  "is_surrogate c \<longleftrightarrow> 55296 \<le> c \<and> c \<le> 57343"

definition encodable :: "pystr \<Rightarrow> bool" where
  "encodable s \<longleftrightarrow> list_all (\<lambda>c. \<not> is_surrogate c) s"

text \<open>
  \<open>print(f"... {v}")\<close> on a standard output that encodes in UTF-8: the text of a
  string is the string itself, and a lone surrogate in it makes the write raise; the
  text of any other value is ASCII or shows strings escaped, and is written.
\<close>

fun print_value :: "pyval \<Rightarrow> exn option" where
  "print_value (PStr s) = (if encodable s then None else Some UnicodeEncodeError)"
| "print_value v = None"

text \<open>
  Binding one parameter of a statement in \<open>sqlite3\<close>: \<open>None\<close>, an integer of 64 bits (a
  bool is one), a float and a string that UTF-8 encodes are bound; a larger integer
  overflows, a list or a dict has no adapter (\<open>ProgrammingError\<close>; the same failure
  is named \<open>InterfaceError\<close> before Python 3.11). The parameters are bound in order,
  and the first that fails raises.
\<close>

fun sqlite_bind :: "pyval \<Rightarrow> exn option" where
  "sqlite_bind PNone = None"
| "sqlite_bind (PBool b) = None"
| "sqlite_bind (PInt n) =
     (if - 9223372036854775808 \<le> n \<and> n \<le> 9223372036854775807 then None else Some OverflowError)"
| "sqlite_bind (PFloat x) = None"
| "sqlite_bind (PStr s) = (if encodable s then None else Some UnicodeEncodeError)"
| "sqlite_bind (PList xs) = Some ProgrammingError"
| "sqlite_bind (PDict kvs) = Some ProgrammingError"

fun bind_parameters :: "pyval list \<Rightarrow> exn option" where
  "bind_parameters [] = None"
| "bind_parameters (v # vs) =
     (case sqlite_bind v of Some x \<Rightarrow> Some x | None \<Rightarrow> bind_parameters vs)"

section \<open>The inquiry selector\<close>

text \<open>
  An inquiry is the dict built from one row: header name to cell text, and the key
  \<open>row_index\<close> to the row's position in the sheet.
\<close>

type_synonym inquiry = "pystr \<rightharpoonup> pyval"

definition STATUS :: pystr where "STATUS = str ''Status''"
definition ROW_INDEX :: pystr where "ROW_INDEX = str ''row_index''"

text \<open>\<open>dict(pairs)\<close>: a later pair with the same key replaces the earlier one.\<close>

definition dict :: "('k \<times> 'v) list \<Rightarrow> ('k \<rightharpoonup> 'v)" where
  "dict kvs = foldl (\<lambda>m (k, v). m(k \<mapsto> v)) Map.empty kvs"

text \<open>The test of line 54: \<open>row_dict.get('Status', '').strip() == ''\<close>.\<close>

definition status_is_empty :: "(pystr \<rightharpoonup> pystr) \<Rightarrow> bool" where
  "status_is_empty row_dict \<longleftrightarrow>
     py_strip (case row_dict STATUS of None \<Rightarrow> [] | Some s \<Rightarrow> s) = []"

text \<open>
  The loop of lines 51 to 56, with the counter \<open>i\<close> of \<open>enumerate\<close> and the list
  \<open>new_inquiries\<close> it appends to.
\<close>

fun select_loop :: "pystr list \<Rightarrow> nat \<Rightarrow> pystr list list \<Rightarrow> inquiry list \<Rightarrow> inquiry list" where
  "select_loop header i [] new_inquiries = new_inquiries"
| "select_loop header i (row # all_rows) new_inquiries =
     (let row_dict = dict (zip header row) in
      if status_is_empty row_dict
      then select_loop header (Suc i) all_rows
             (new_inquiries @ [(map_option PStr \<circ> row_dict)(ROW_INDEX \<mapsto> PInt (int i + 2))])
      else select_loop header (Suc i) all_rows new_inquiries)"

section \<open>Cleaning the response of the model\<close>

definition BACKTICKS :: pystr where "BACKTICKS = [96, 96, 96]"
definition BACKTICKS_JSON :: pystr where "BACKTICKS_JSON = [96, 96, 96] @ str ''json''"

text \<open>
  Line 79:
  \<open>response.text.strip().replace(BACKTICKS_JSON, '').replace(BACKTICKS, '').strip()\<close>.
\<close>

definition cleaned_response :: "pystr \<Rightarrow> pystr" where
  "cleaned_response text =
     py_strip (py_replace BACKTICKS [] (py_replace BACKTICKS_JSON [] (py_strip text)))"

text \<open>\<open>old in s\<close>: the text \<open>old\<close> occurs in \<open>s\<close>.\<close>

fun py_in :: "'a list \<Rightarrow> 'a list \<Rightarrow> bool" where
  "py_in old [] = (old = [])"
| "py_in old (c # s) = (take (length old) (c # s) = old \<or> py_in old s)"

text \<open>A payload inside a fenced block, as a model answers it: the two fences on lines of their own.\<close>

definition fenced :: "pystr \<Rightarrow> pystr" where
  "fenced payload = BACKTICKS_JSON @ [10] @ payload @ [10] @ BACKTICKS"

section \<open>The outside world\<close>

text \<open>
  The program talks to four services. What they answer is not decided by the program:
  it is given by an environment, asked with the number of calls made so far (so that
  two equal requests may be answered differently) and with the request.
  \<open>json.loads\<close> is the decoder of the standard library, a parameter too: \<open>None\<close>
  stands for the exception it raises. The database answers three times for one
  inquiry: when the connection is opened, when the INSERT is compiled and the
  transaction opened (a missing table fails here) and, once the parameters are bound,
  when it is run and committed. Every call answers: it returns or it raises.
\<close>

datatype ai_outcome = AIRaises exn | AIText pystr

datatype post_outcome = PostRaises exn | PostResponse int pystr

text \<open>The values interpolated into the message posted to the webhook.\<close>

record message =
  msg_company :: pyval
  msg_score :: pyval
  msg_contact :: pyval
  msg_summary :: pyval
  msg_next_step :: pyval

record env =
  credentials :: "exn option"
  sheet_get :: "exn + pystr list list option"
  generate_content :: "nat \<Rightarrow> pyval \<Rightarrow> ai_outcome"
  loads :: "pystr \<Rightarrow> pyval option"
  db_connect :: "nat \<Rightarrow> exn option"
  db_prepare :: "nat \<Rightarrow> exn option"
  db_step :: "nat \<Rightarrow> pyval list \<Rightarrow> exn option"
  requests_post :: "nat \<Rightarrow> message \<Rightarrow> post_outcome"
  values_update :: "nat \<Rightarrow> int \<Rightarrow> pyval list \<Rightarrow> exn option"

text \<open>
  One line for each \<open>print\<close> of the program, with the values it interpolates. The
  \<open>print\<close> of line 81 writes a value that comes from the decoder, and can fail. The
  others write cells of the sheet, counts, a status code, the body of a response and
  the message of an exception: these are taken to be text that the standard output
  encodes, and the lines are written without failure.
\<close>

datatype log_line =
    LogNoData
  | LogFound nat
  | LogAISuccess pyval
  | LogAIError exn
  | LogStored pyval
  | LogSkipSlack
  | LogSlackSent
  | LogSlackFailed int pystr
  | LogUpdated int
  | LogStarting
  | LogNoNew
  | LogProcessing pyval
  | LogSkipNoDescription
  | LogSkipAIFailure
  | LogFinished

text \<open>
  What the program has done to the world: the descriptions sent to the model, the rows
  inserted into the table \<open>opportunities\<close> (the eight parameters of the INSERT, in
  column order), the messages posted, the value last written to each cell of the tab
  (row number and column number, both from 1) and the lines printed.
\<close>

record world =
  clock :: nat
  prompts :: "pyval list"
  db :: "pyval list list"
  posts :: "message list"
  sheet :: "int \<times> nat \<Rightarrow> pyval"
  stdout :: "log_line list"

definition print :: "log_line \<Rightarrow> world \<Rightarrow> world" where
  "print l w = w\<lparr>stdout := stdout w @ [l]\<rparr>"

definition tick :: "world \<Rightarrow> world" where
  "tick w = w\<lparr>clock := Suc (clock w)\<rparr>"

definition TIMESTAMP :: pystr where "TIMESTAMP = str ''Timestamp''"
definition COMPANY_NAME :: pystr where "COMPANY_NAME = str ''Company Name''"
definition CONTACT_EMAIL :: pystr where "CONTACT_EMAIL = str ''Contact Email''"
definition COMPANY_WEBSITE :: pystr where "COMPANY_WEBSITE = str ''Company Website''"
definition OPPORTUNITY_DESCRIPTION :: pystr where
  "OPPORTUNITY_DESCRIPTION = str ''Opportunity Description''"
definition SUMMARY :: pystr where "SUMMARY = str ''summary''"
definition ALIGNMENT_SCORE :: pystr where "ALIGNMENT_SCORE = str ''alignment_score''"
definition SUGGESTED_NEXT_STEP :: pystr where "SUGGESTED_NEXT_STEP = str ''suggested_next_step''"
definition PROCESSED :: pystr where "PROCESSED = str ''Processed''"

text \<open>\<open>inquiry.get(k)\<close>: \<open>None\<close> for a missing key.\<close>

definition inquiry_get :: "inquiry \<Rightarrow> pystr \<Rightarrow> pyval" where
  "inquiry_get inquiry k = (case inquiry k of None \<Rightarrow> PNone | Some v \<Rightarrow> v)"

text \<open>\<open>ai_result.get(k, d)\<close> once \<open>ai_result\<close> is known to be a dict with the items \<open>kvs\<close>.\<close>

definition dict_get :: "(pystr \<times> pyval) list \<Rightarrow> pystr \<Rightarrow> pyval \<Rightarrow> pyval" where
  "dict_get kvs k d = (case map_of kvs k of None \<Rightarrow> d | Some v \<Rightarrow> v)"

section \<open>The functions of main.py\<close>

text \<open>
  Every function takes the world and returns the world it leaves, with either the
  exception it raised (\<open>Inl\<close>) or its result (\<open>Inr\<close>): what was done before an
  exception stays done.
\<close>

definition get_google_sheets_service :: "env \<Rightarrow> exn + unit" where
  "get_google_sheets_service e = (case credentials e of Some x \<Rightarrow> Inl x | None \<Rightarrow> Inr ())"

definition fetch_new_inquiries :: "env \<Rightarrow> world \<Rightarrow> (exn + inquiry list) \<times> world" where
  "fetch_new_inquiries e w =
     (case sheet_get e of
        Inl x \<Rightarrow> (Inl x, w)
      | Inr result \<Rightarrow>
          (let values = (case result of None \<Rightarrow> [] | Some vs \<Rightarrow> vs) in
           if values = [] \<or> length values < 2 then (Inr [], print LogNoData w)
           else
             (let header = hd values;
                  all_rows = tl values;
                  new_inquiries = select_loop header 0 all_rows []
              in (Inr new_inquiries, print (LogFound (length new_inquiries)) w))))"

text \<open>
  Lines 79 to 81, the part of the \<open>try\<close> block after the call: the text is cleaned and
  decoded, and the \<open>print\<close> reads \<open>ai_result.get('alignment_score')\<close>, which raises when
  the decoded value is not a dict. The result comes with the score printed.
\<close>

definition decode_response :: "(pystr \<Rightarrow> pyval option) \<Rightarrow> pystr \<Rightarrow> exn + pyval \<times> pyval" where
  "decode_response json_loads text =
     (case json_loads (cleaned_response text) of
        None \<Rightarrow> Inl JSONDecodeError
      | Some ai_result \<Rightarrow>
          (case py_get ai_result ALIGNMENT_SCORE PNone of
             Inl x \<Rightarrow> Inl x
           | Inr score \<Rightarrow> Inr (ai_result, score)))"

text \<open>
  The \<open>try\<close> block of \<open>analyze_with_ai\<close>, lines 77 to 82. The \<open>print\<close> of line 81
  writes the score, and raises inside the block when it cannot.
\<close>

definition analyze_try :: "env \<Rightarrow> pyval \<Rightarrow> world \<Rightarrow> (exn + pyval) \<times> world" where
  "analyze_try e description w =
     (let w1 = tick (w\<lparr>prompts := prompts w @ [description]\<rparr>) in
      case generate_content e (clock w) description of
        AIRaises x \<Rightarrow> (Inl x, w1)
      | AIText text \<Rightarrow>
          (case decode_response (loads e) text of
             Inl x \<Rightarrow> (Inl x, w1)
           | Inr (ai_result, score) \<Rightarrow>
               (case print_value score of
                  Some x \<Rightarrow> (Inl x, w1)
                | None \<Rightarrow> (Inr ai_result, print (LogAISuccess score) w1))))"

text \<open>\<open>analyze_with_ai\<close>: the \<open>try\<close> block under \<open>except Exception\<close>, lines 83 to 85.\<close>

definition analyze_with_ai :: "env \<Rightarrow> pyval \<Rightarrow> world \<Rightarrow> (exn + pyval) \<times> world" where
  "analyze_with_ai e description w =
     (case analyze_try e description w of
        (Inl x, w1) \<Rightarrow> (Inr PNone, print (LogAIError x) w1)
      | (Inr ai_result, w1) \<Rightarrow> (Inr ai_result, w1))"

text \<open>The eight parameters of the INSERT, lines 95 to 102.\<close>

definition insert_parameters :: "inquiry \<Rightarrow> (pystr \<times> pyval) list \<Rightarrow> pyval list" where
  "insert_parameters inquiry kvs =
     [inquiry_get inquiry TIMESTAMP,
      inquiry_get inquiry COMPANY_NAME,
      inquiry_get inquiry CONTACT_EMAIL,
      inquiry_get inquiry COMPANY_WEBSITE,
      inquiry_get inquiry OPPORTUNITY_DESCRIPTION,
      PStr PROCESSED,
      dict_get kvs SUMMARY PNone,
      dict_get kvs ALIGNMENT_SCORE PNone]"

text \<open>
  \<open>cursor.execute\<close> and \<open>conn.commit\<close>, lines 91 to 104: the statement is compiled, the
  parameters are bound, the statement is run and committed.
\<close>

definition db_execute :: "env \<Rightarrow> nat \<Rightarrow> pyval list \<Rightarrow> exn option" where
  "db_execute e n row =
     (case db_prepare e n of
        Some x \<Rightarrow> Some x
      | None \<Rightarrow>
          (case bind_parameters row of
             Some x \<Rightarrow> Some x
           | None \<Rightarrow> db_step e n row))"

definition store_in_database :: "env \<Rightarrow> inquiry \<Rightarrow> pyval \<Rightarrow> world \<Rightarrow> (exn + unit) \<times> world" where
  "store_in_database e inquiry ai_result w =
     (let w1 = tick w in
      case db_connect e (clock w) of
        Some x \<Rightarrow> (Inl x, w1)
      | None \<Rightarrow>
          (case ai_result of
             PDict kvs \<Rightarrow>
               (let row = insert_parameters inquiry kvs; w2 = tick w1 in
                case db_execute e (clock w1) row of
                  Some x \<Rightarrow> (Inl x, w2)
                | None \<Rightarrow>
                    (Inr (), print (LogStored (inquiry_get inquiry COMPANY_NAME))
                               (w2\<lparr>db := db w2 @ [row]\<rparr>)))
           | _ \<Rightarrow> (Inl AttributeError, w1)))"

definition send_slack_alert :: "env \<Rightarrow> inquiry \<Rightarrow> pyval \<Rightarrow> world \<Rightarrow> (exn + unit) \<times> world" where
  "send_slack_alert e inquiry ai_result w =
     (case ai_result of
        PDict kvs \<Rightarrow>
          (case py_lt_4 (dict_get kvs ALIGNMENT_SCORE (PInt 0)) of
             Inl x \<Rightarrow> (Inl x, w)
           | Inr True \<Rightarrow> (Inr (), print LogSkipSlack w)
           | Inr False \<Rightarrow>
               (let message = \<lparr>msg_company = inquiry_get inquiry COMPANY_NAME,
                               msg_score = dict_get kvs ALIGNMENT_SCORE PNone,
                               msg_contact = inquiry_get inquiry CONTACT_EMAIL,
                               msg_summary = dict_get kvs SUMMARY PNone,
                               msg_next_step = dict_get kvs SUGGESTED_NEXT_STEP PNone\<rparr>;
                    w1 = tick (w\<lparr>posts := posts w @ [message]\<rparr>)
                in case requests_post e (clock w) message of
                     PostRaises x \<Rightarrow> (Inl x, w1)
                   | PostResponse status_code text \<Rightarrow>
                       (Inr (), print (if status_code = 200 then LogSlackSent
                                       else LogSlackFailed status_code text) w1)))
      | _ \<Rightarrow> (Inl AttributeError, w))"

text \<open>
  \<open>update_sheet\<close>: one request for the range that starts at column F (the sixth) of
  the row, with one row of three values. Whether the service accepts the request is
  the environment's answer; when it does, it writes the values to that cell and the
  two to its right.
\<close>

definition write_cells :: "int \<Rightarrow> nat \<Rightarrow> pyval list \<Rightarrow> (int \<times> nat \<Rightarrow> pyval) \<Rightarrow> (int \<times> nat \<Rightarrow> pyval)" where
  "write_cells r c vs g =
     (\<lambda>(r', c'). if r' = r \<and> c \<le> c' \<and> c' < c + length vs then vs ! (c' - c) else g (r', c'))"

definition update_sheet :: "env \<Rightarrow> int \<Rightarrow> pyval \<Rightarrow> world \<Rightarrow> (exn + unit) \<times> world" where
  "update_sheet e row_index ai_result w =
     (case ai_result of
        PDict kvs \<Rightarrow>
          (let values = [PStr PROCESSED, dict_get kvs SUMMARY PNone,
                         dict_get kvs ALIGNMENT_SCORE PNone];
               w1 = tick w
           in case values_update e (clock w) row_index values of
                Some x \<Rightarrow> (Inl x, w1)
              | None \<Rightarrow>
                  (Inr (), print (LogUpdated row_index)
                             (w1\<lparr>sheet := write_cells row_index 6 values (sheet w1)\<rparr>)))
      | _ \<Rightarrow> (Inl AttributeError, w))"

section \<open>The main program\<close>

text \<open>
  The body of the \<open>for\<close> loop, lines 182 to 202, for one inquiry. The row position
  is read with \<open>inquiry['row_index']\<close>, a \<open>KeyError\<close> when the key is missing; a position
  that is not an integer names no range of the sheet, and the service rejects the
  request.
\<close>

definition process_inquiry :: "env \<Rightarrow> inquiry \<Rightarrow> world \<Rightarrow> (exn + unit) \<times> world" where
  "process_inquiry e inquiry w =
     (let w0 = print (LogProcessing (inquiry_get inquiry COMPANY_NAME)) w;
          description = inquiry_get inquiry OPPORTUNITY_DESCRIPTION
      in if \<not> truthy description then (Inr (), print LogSkipNoDescription w0)
         else
           (case analyze_with_ai e description w0 of
              (Inl x, w1) \<Rightarrow> (Inl x, w1)
            | (Inr ai_analysis, w1) \<Rightarrow>
                if \<not> truthy ai_analysis then (Inr (), print LogSkipAIFailure w1)
                else
                  (case store_in_database e inquiry ai_analysis w1 of
                     (Inl x, w2) \<Rightarrow> (Inl x, w2)
                   | (Inr u, w2) \<Rightarrow>
                       (case send_slack_alert e inquiry ai_analysis w2 of
                          (Inl x, w3) \<Rightarrow> (Inl x, w3)
                        | (Inr u, w3) \<Rightarrow>
                            (case inquiry ROW_INDEX of
                               None \<Rightarrow> (Inl KeyError, w3)
                             | Some (PInt row_index) \<Rightarrow> update_sheet e row_index ai_analysis w3
                             | Some v \<Rightarrow> (Inl HttpError, w3))))))"

text \<open>The \<open>for\<close> loop, line 181: an exception leaves it.\<close>

fun process_inquiries :: "env \<Rightarrow> inquiry list \<Rightarrow> world \<Rightarrow> (exn + unit) \<times> world" where
  "process_inquiries e [] w = (Inr (), w)"
| "process_inquiries e (inquiry # new_inquiries) w =
     (case process_inquiry e inquiry w of
        (Inl x, w1) \<Rightarrow> (Inl x, w1)
      | (Inr u, w1) \<Rightarrow> process_inquiries e new_inquiries w1)"

text \<open>Lines 173 to 204.\<close>

definition main :: "env \<Rightarrow> world \<Rightarrow> (exn + unit) \<times> world" where
  "main e w =
     (let w0 = print LogStarting w in
      case get_google_sheets_service e of
        Inl x \<Rightarrow> (Inl x, w0)
      | Inr sheets_service \<Rightarrow>
          (case fetch_new_inquiries e w0 of
             (Inl x, w1) \<Rightarrow> (Inl x, w1)
           | (Inr new_inquiries, w1) \<Rightarrow>
               if new_inquiries = [] then (Inr (), print LogFinished (print LogNoNew w1))
               else
                 (case process_inquiries e new_inquiries w1 of
                    (Inl x, w2) \<Rightarrow> (Inl x, w2)
                  | (Inr u, w2) \<Rightarrow> (Inr (), print LogFinished w2))))"

text \<open>
  The exit status of the interpreter: 0 when the script runs to its end, 1 when an
  exception is not caught.
\<close>

definition exit_status :: "(exn + unit) \<times> world \<Rightarrow> nat" where
  "exit_status r = (case fst r of Inl x \<Rightarrow> 1 | Inr u \<Rightarrow> 0)"

section \<open>Notions used to state the properties\<close>

text \<open>The Status field of a row is absent or holds nothing but whitespace.\<close>

definition status_blank :: "pystr list \<Rightarrow> pystr list \<Rightarrow> bool" where
  "status_blank header row \<longleftrightarrow>
     (case dict (zip header row) STATUS of None \<Rightarrow> True | Some s \<Rightarrow> \<forall>c\<in>set s. py_isspace c)"

text \<open>The inquiry expected for the data row of index \<open>n\<close> (from 0): its cells under the header names, and the position \<open>n + 2\<close>.\<close>

definition inquiry_at :: "pystr list \<Rightarrow> pystr list list \<Rightarrow> nat \<Rightarrow> inquiry" where
  "inquiry_at header all_rows n =
     (\<lambda>k. if k = ROW_INDEX then Some (PInt (int n + 2))
          else map_option PStr (dict (zip header (all_rows ! n)) k))"

text \<open>The two replacements of line 79, without the two \<open>strip\<close>.\<close>

definition both :: "pystr \<Rightarrow> pystr" where
  "both s = py_replace BACKTICKS [] (py_replace BACKTICKS_JSON [] s)"


text \<open>
  The alignment score of a classification as the specification reads it: at least 4, below 4
  (a bool counts as 0 or 1), or not a number at all. A NaN is none of the three.
\<close>

fun score_at_least_4 :: "pyval \<Rightarrow> bool" where
  "score_at_least_4 (PInt n) = (4 \<le> n)"
| "score_at_least_4 (PFloat x) = (\<not> float_is_nan x \<and> \<not> float_lt_4 x)"
| "score_at_least_4 v = False"

fun score_below_4 :: "pyval \<Rightarrow> bool" where
  "score_below_4 (PInt n) = (n < 4)"
| "score_below_4 (PBool b) = True"
| "score_below_4 (PFloat x) = float_lt_4 x"
| "score_below_4 v = False"

fun not_a_number :: "pyval \<Rightarrow> bool" where
  "not_a_number (PInt n) = False"
| "not_a_number (PBool b) = False"
| "not_a_number (PFloat x) = False"
| "not_a_number v = True"

text \<open>The message the notifier posts for an inquiry and the items of a classification.\<close>

definition alert_message :: "inquiry \<Rightarrow> (pystr \<times> pyval) list \<Rightarrow> message" where
  "alert_message q kvs =
     \<lparr>msg_company = inquiry_get q COMPANY_NAME,
      msg_score = dict_get kvs ALIGNMENT_SCORE PNone,
      msg_contact = inquiry_get q CONTACT_EMAIL,
      msg_summary = dict_get kvs SUMMARY PNone,
      msg_next_step = dict_get kvs SUGGESTED_NEXT_STEP PNone\<rparr>"

text \<open>
  No service outside the classifier fails: the credentials load, the tab is read, the
  database opens, compiles and runs the INSERT, the webhook answers and the write-back
  is accepted.
\<close>

definition services_up :: "env \<Rightarrow> bool" where
  "services_up e \<longleftrightarrow>
     credentials e = None \<and> (\<exists>result. sheet_get e = Inr result) \<and>
     (\<forall>n. db_connect e n = None) \<and> (\<forall>n. db_prepare e n = None) \<and>
     (\<forall>n row. db_step e n row = None) \<and>
     (\<forall>n m. \<exists>status_code body. requests_post e n m = PostResponse status_code body) \<and>
     (\<forall>n r vs. values_update e n r vs = None)"

text \<open>
  The data fit the database and the guard: every cell of the tab is text that UTF-8
  encodes, and every classification the model answers has a summary and a score that
  \<open>sqlite3\<close> binds, and a score that can be compared with 4 (a number, or none).
\<close>

definition data_fit :: "env \<Rightarrow> bool" where
  "data_fit e \<longleftrightarrow>
     (\<forall>vs. sheet_get e = Inr (Some vs) \<longrightarrow> (\<forall>row\<in>set vs. \<forall>cell\<in>set row. encodable cell)) \<and>
     (\<forall>n d t kvs. generate_content e n d = AIText t \<longrightarrow>
        loads e (cleaned_response t) = Some (PDict kvs) \<longrightarrow>
        sqlite_bind (dict_get kvs SUMMARY PNone) = None \<and>
        sqlite_bind (dict_get kvs ALIGNMENT_SCORE PNone) = None \<and>
        \<not> not_a_number (dict_get kvs ALIGNMENT_SCORE (PInt 0)))"

text \<open>
  The classification the loop body goes on with for an inquiry, if there is one: the
  description is not empty, the model answers a text, the cleaned text decodes to an
  object that is not empty, and the score is printed.
\<close>

definition classification :: "env \<Rightarrow> inquiry \<Rightarrow> world \<Rightarrow> (pystr \<times> pyval) list option" where
  "classification e q w =
     (if \<not> truthy (inquiry_get q OPPORTUNITY_DESCRIPTION) then None
      else case generate_content e (clock w) (inquiry_get q OPPORTUNITY_DESCRIPTION) of
             AIRaises x \<Rightarrow> None
           | AIText t \<Rightarrow>
               (case loads e (cleaned_response t) of
                  Some (PDict kvs) \<Rightarrow>
                    (if kvs \<noteq> [] \<and> print_value (dict_get kvs ALIGNMENT_SCORE PNone) = None
                     then Some kvs else None)
                | _ \<Rightarrow> None))"

text \<open>
  The write-back for a classified inquiry raises \<open>x\<close> when it is the \<open>n\<close>-th call: the
  service rejects the request, or the inquiry has no integer row position.
\<close>

definition write_back_raises :: "env \<Rightarrow> inquiry \<Rightarrow> (pystr \<times> pyval) list \<Rightarrow> nat \<Rightarrow> exn \<Rightarrow> bool" where
  "write_back_raises e q kvs n x \<longleftrightarrow>
     (case q ROW_INDEX of
        None \<Rightarrow> x = KeyError
      | Some (PInt r) \<Rightarrow>
          values_update e n r [PStr PROCESSED, dict_get kvs SUMMARY PNone,
                               dict_get kvs ALIGNMENT_SCORE PNone] = Some x
      | Some v \<Rightarrow> x = HttpError)"

text \<open>
  One of the steps after the classification raises \<open>x\<close>, for an inquiry reached at the
  world \<open>w\<close> and classified as \<open>kvs\<close>: the first that raises among the connection to the
  database, the INSERT, the comparison of the score with 4, the post to the webhook
  (made when the score is not below 4) and the write-back. The calls are numbered from
  the clock of \<open>w\<close>, the completion call being the first.
\<close>

definition step_raises :: "env \<Rightarrow> inquiry \<Rightarrow> world \<Rightarrow> (pystr \<times> pyval) list \<Rightarrow> exn \<Rightarrow> bool" where
  "step_raises e q w kvs x \<longleftrightarrow>
     (case db_connect e (clock w + 1) of
        Some y \<Rightarrow> y = x
      | None \<Rightarrow>
          (case db_execute e (clock w + 2) (insert_parameters q kvs) of
             Some y \<Rightarrow> y = x
           | None \<Rightarrow>
               (case py_lt_4 (dict_get kvs ALIGNMENT_SCORE (PInt 0)) of
                  Inl y \<Rightarrow> y = x
                | Inr True \<Rightarrow> write_back_raises e q kvs (clock w + 3) x
                | Inr False \<Rightarrow>
                    (case requests_post e (clock w + 3) (alert_message q kvs) of
                       PostRaises y \<Rightarrow> y = x
                     | PostResponse status_code body \<Rightarrow>
                         write_back_raises e q kvs (clock w + 4) x))))"

text \<open>
  What the cleaning relies on in \<open>json.loads\<close>: the whitespace around a document is
  ignored, so a text that decodes still decodes, to the same value, once stripped.
\<close>

definition strip_safe :: "(pystr \<Rightarrow> pyval option) \<Rightarrow> bool" where
  "strip_safe json_loads \<longleftrightarrow>
     (\<forall>s v. json_loads s = Some v \<longrightarrow> json_loads (py_strip s) = Some v)"

section \<open>Worlds and environments of the examples\<close>

definition world0 :: world where
  "world0 = \<lparr>clock = 0, prompts = [], db = [], posts = [], sheet = (\<lambda>cell. PNone), stdout = []\<rparr>"

text \<open>An environment where every service but the model and the decoder answers with success.\<close>

definition healthy ::
  "pystr list list \<Rightarrow> (nat \<Rightarrow> pyval \<Rightarrow> ai_outcome) \<Rightarrow> (pystr \<Rightarrow> pyval option) \<Rightarrow> env" where
  "healthy values ai decoder =
     \<lparr>credentials = None, sheet_get = Inr (Some values), generate_content = ai, loads = decoder,
      db_connect = (\<lambda>n. None), db_prepare = (\<lambda>n. None), db_step = (\<lambda>n row. None),
      requests_post = (\<lambda>n m. PostResponse 200 (str ''ok'')),
      values_update = (\<lambda>n r vs. None)\<rparr>"

text \<open>A tab with three data rows: the second is processed, the first has no Status cell, the third a blank one.\<close>

definition three_rows :: "pystr list list" where
  "three_rows =
     [[OPPORTUNITY_DESCRIPTION, STATUS],
      [str ''crm''],
      [str ''erp'', PROCESSED],
      [str ''pos'', str '' '']]"

text \<open>A model that is down, one that answers a fixed text, and decoders given by their value on one text.\<close>

definition ai_down :: "nat \<Rightarrow> pyval \<Rightarrow> ai_outcome" where
  "ai_down n description = AIRaises GenerationError"

definition ai_says :: "pystr \<Rightarrow> nat \<Rightarrow> pyval \<Rightarrow> ai_outcome" where
  "ai_says text n description = AIText text"

definition no_decoder :: "pystr \<Rightarrow> pyval option" where
  "no_decoder s = None"

definition decoder_of :: "pystr \<Rightarrow> pyval \<Rightarrow> pystr \<Rightarrow> pyval option" where
  "decoder_of text v s = (if s = text then Some v else None)"

text \<open>The inquiry of the first data row of \<open>three_rows\<close>, and one without a description.\<close>

definition crm_inquiry :: inquiry where
  "crm_inquiry = inquiry_at (hd three_rows) (tl three_rows) 0"

definition blank_inquiry :: inquiry where
  "blank_inquiry = [ROW_INDEX \<mapsto> PInt 3]"

text \<open>
  Answers of the model used in the examples, with the value \<open>json.loads\<close> gives for
  each: the classification of the specification's scenario, the same with the score as
  a string, the empty object, and a text that is no JSON. The last payload carries a
  triple backtick inside a string.
\<close>

definition good_text :: pystr where
  "good_text = str ''{\"summary\":\"B2B SaaS for logistics\",\"alignment_score\":5,\"suggested_next_step\":\"Schedule initial screening call\"}''"

definition good_items :: "(pystr \<times> pyval) list" where
  "good_items =
     [(SUMMARY, PStr (str ''B2B SaaS for logistics'')),
      (ALIGNMENT_SCORE, PInt 5),
      (SUGGESTED_NEXT_STEP, PStr (str ''Schedule initial screening call''))]"

definition string_score_text :: pystr where
  "string_score_text = str ''{\"summary\":\"B2B SaaS for logistics\",\"alignment_score\":\"5\",\"suggested_next_step\":\"Schedule initial screening call\"}''"

definition string_score_items :: "(pystr \<times> pyval) list" where
  "string_score_items =
     [(SUMMARY, PStr (str ''B2B SaaS for logistics'')),
      (ALIGNMENT_SCORE, PStr (str ''5'')),
      (SUGGESTED_NEXT_STEP, PStr (str ''Schedule initial screening call''))]"

definition lossy_payload :: pystr where
  "lossy_payload = str ''{\"summary\": \"a```b\"}''"

text \<open>Environments: all well, the score a string, the table missing from the database, the webhook answering 500, the empty object, no JSON, the model down.\<close>

definition good_env :: env where
  "good_env = healthy three_rows (ai_says good_text) (decoder_of good_text (PDict good_items))"

definition string_score_env :: env where
  "string_score_env =
     healthy three_rows (ai_says string_score_text) (decoder_of string_score_text (PDict string_score_items))"

definition no_table_env :: env where
  "no_table_env = good_env\<lparr>db_prepare := (\<lambda>n. Some DatabaseError)\<rparr>"

definition slack_500_env :: env where
  "slack_500_env = good_env\<lparr>requests_post := (\<lambda>n m. PostResponse 500 (str ''no_service''))\<rparr>"

definition empty_object_env :: env where
  "empty_object_env = healthy three_rows (ai_says (str ''{}'')) (decoder_of (str ''{}'') (PDict []))"

definition garbled_env :: env where
  "garbled_env = healthy three_rows (ai_says (str ''Sorry, no.'')) no_decoder"

definition down_env :: env where
  "down_env = healthy three_rows ai_down no_decoder"

text \<open>
  Environments where one call outside the classifier raises: the credentials do not
  load, the read of the tab fails, the database cannot be opened, the webhook cannot
  be reached, the write-back is rejected.
\<close>

definition no_credentials_env :: env where
  "no_credentials_env = good_env\<lparr>credentials := Some CredentialsError\<rparr>"

definition no_sheet_env :: env where
  "no_sheet_env = good_env\<lparr>sheet_get := Inl HttpError\<rparr>"

definition no_database_env :: env where
  "no_database_env = good_env\<lparr>db_connect := (\<lambda>n. Some DatabaseError)\<rparr>"

definition slack_down_env :: env where
  "slack_down_env = good_env\<lparr>requests_post := (\<lambda>n m. PostRaises RequestException)\<rparr>"

definition read_only_env :: env where
  "read_only_env = good_env\<lparr>values_update := (\<lambda>n r vs. Some HttpError)\<rparr>"

text \<open>
  The inquiry of the third data row, and an environment where the completion call
  raises for the first inquiry and the database cannot be opened.
\<close>

definition pos_inquiry :: inquiry where
  "pos_inquiry = inquiry_at (hd three_rows) (tl three_rows) 2"

definition second_fails_env :: env where
  "second_fails_env =
     good_env\<lparr>generate_content :=
                (\<lambda>n d. if n = 0 then AIRaises GenerationError else AIText good_text),
              db_connect := (\<lambda>n. Some DatabaseError)\<rparr>"

text \<open>
  Answers with a score of another type, with the value \<open>json.loads\<close> gives for each: a
  list, a string that is one lone surrogate (the answer writes it as the escape
  \<open>\ud800\<close>; 92 is the backslash), the float 4.5.
\<close>

definition list_score_text :: pystr where
  "list_score_text = str ''{\"summary\":\"B2B SaaS for logistics\",\"alignment_score\":[5]}''"

definition list_score_items :: "(pystr \<times> pyval) list" where
  "list_score_items =
     [(SUMMARY, PStr (str ''B2B SaaS for logistics'')), (ALIGNMENT_SCORE, PList [PInt 5])]"

definition surrogate_text :: pystr where
  "surrogate_text = str ''{\"alignment_score\":\"'' @ [92] @ str ''ud800\"}''"

definition surrogate_items :: "(pystr \<times> pyval) list" where
  "surrogate_items = [(ALIGNMENT_SCORE, PStr [55296])]"

definition float_score_text :: pystr where
  "float_score_text = str ''{\"summary\":\"B2B SaaS for logistics\",\"alignment_score\":4.5}''"

definition float_score_items :: "(pystr \<times> pyval) list" where
  "float_score_items =
     [(SUMMARY, PStr (str ''B2B SaaS for logistics'')), (ALIGNMENT_SCORE, PFloat 0x4012000000000000)]"

definition list_score_env :: env where
  "list_score_env =
     healthy three_rows (ai_says list_score_text) (decoder_of list_score_text (PDict list_score_items))"



text \<open>
  A decoder for one document, the empty object, written with any JSON whitespace
  (space, tab, line feed, carriage return) around it.
\<close>

definition json_space :: "nat \<Rightarrow> bool" where
  "json_space c \<longleftrightarrow> c = 32 \<or> c = 9 \<or> c = 10 \<or> c = 13"

definition empty_object_decoder :: "pystr \<Rightarrow> pyval option" where
  "empty_object_decoder s =
     (if rev (dropWhile json_space (rev (dropWhile json_space s))) = str ''{}''
      then Some (PDict []) else None)"

section \<open>Facts about strings\<close>


lemma py_strip_Nil_iff: "py_strip s = [] \<longleftrightarrow> (\<forall>c\<in>set s. py_isspace c)"
proof (cases "dropWhile py_isspace s = []")
  case True
  have a: "\<forall>c\<in>set s. py_isspace c" using True by (simp add: dropWhile_eq_Nil_conv)
  have b: "py_strip s = []" unfolding py_strip_def True by simp
  show ?thesis using a b by blast
next
  case False
  then have "\<not> py_isspace (hd (dropWhile py_isspace s))" by (rule hd_dropWhile)
  moreover have "hd (dropWhile py_isspace s) \<in> set (dropWhile py_isspace s)"
    using False by (rule hd_in_set)
  ultimately have "dropWhile py_isspace (rev (dropWhile py_isspace s)) \<noteq> []"
    by (auto simp: dropWhile_eq_Nil_conv)
  then have "py_strip s \<noteq> []" by (simp add: py_strip_def)
  moreover have "\<not> (\<forall>c\<in>set s. py_isspace c)" using False by (simp add: dropWhile_eq_Nil_conv)
  ultimately show ?thesis by blast
qed

lemma status_is_empty_iff: "status_is_empty (dict (zip header row)) \<longleftrightarrow> status_blank header row"
  by (auto simp: status_is_empty_def status_blank_def py_strip_Nil_iff split: option.split)

lemma select_loop_enum:
  "select_loop header i rows acc =
     acc @ map (\<lambda>(k, row). (map_option PStr \<circ> dict (zip header row))(ROW_INDEX \<mapsto> PInt (int k + 2)))
            (filter (\<lambda>(k, row). status_blank header row) (enumerate i rows))"
  by (induction rows arbitrary: i acc) (simp_all add: Let_def status_is_empty_iff)

lemma select_loop_index:
  "select_loop header 0 rows [] =
     map (inquiry_at header rows) (filter (\<lambda>n. status_blank header (rows ! n)) [0..<length rows])"
proof -
  have e: "enumerate 0 rows = map (\<lambda>n. (n, rows ! n)) [0..<length rows]"
    by (simp add: enumerate_eq_zip zip_eq_conv map_nth comp_def)
  show ?thesis
    unfolding select_loop_enum e
    by (auto simp: filter_map comp_def inquiry_at_def fun_eq_iff)
qed

lemma py_replace_Nil: "old \<noteq> [] \<Longrightarrow> py_replace old new [] = []"
  by (simp add: py_replace.simps)

lemma py_replace_match: "old \<noteq> [] \<Longrightarrow> py_replace old new (old @ s) = new @ py_replace old new s"
  by (subst py_replace.simps) simp

lemma py_replace_skip:
  "old \<noteq> [] \<Longrightarrow> take (length old) (c # s) \<noteq> old \<Longrightarrow>
   py_replace old new (c # s) = c # py_replace old new s"
  by (subst py_replace.simps) simp

lemma py_replace_take:
  "old \<noteq> [] \<Longrightarrow> s \<noteq> [] \<Longrightarrow> take (length old) s = old \<Longrightarrow>
   py_replace old new s = new @ py_replace old new (drop (length old) s)"
  by (subst py_replace.simps) simp

lemma py_in_Nil_left: "py_in [] s"
  by (cases s) simp_all

lemma py_in_iff: "py_in old s \<longleftrightarrow> (\<exists>ys zs. s = ys @ old @ zs)"
proof
  show "py_in old s \<Longrightarrow> \<exists>ys zs. s = ys @ old @ zs"
  proof (induction s)
    case Nil
    then show ?case by simp
  next
    case (Cons c s)
    show ?case
    proof (cases "take (length old) (c # s) = old")
      case True
      then have "c # s = [] @ old @ drop (length old) (c # s)"
        by (metis append_Nil append_take_drop_id)
      then show ?thesis by blast
    next
      case False
      with Cons.prems have "py_in old s" by simp
      then obtain ys zs where "s = ys @ old @ zs" using Cons.IH by blast
      then have "c # s = (c # ys) @ old @ zs" by simp
      then show ?thesis by blast
    qed
  qed
next
  assume "\<exists>ys zs. s = ys @ old @ zs"
  then obtain ys zs where s: "s = ys @ old @ zs" by blast
  show "py_in old s" unfolding s
  proof (induction ys)
    case Nil
    have "take (length old) (old @ zs) = old" by simp
    then show ?case by (cases "old @ zs") auto
  next
    case (Cons a ys)
    then show ?case by simp
  qed
qed

lemma py_in_prefix: "py_in (old @ x) s \<Longrightarrow> py_in old s"
  unfolding py_in_iff by (metis append.assoc)

lemma py_replace_absent: "old \<noteq> [] \<Longrightarrow> \<not> py_in old s \<Longrightarrow> py_replace old new s = s"
  by (induction s) (simp_all add: py_replace_Nil py_replace_skip)

lemma py_replace_pass:
  "old \<noteq> [] \<Longrightarrow> \<forall>c\<in>set w. c \<notin> set old \<Longrightarrow> py_replace old new (w @ s) = w @ py_replace old new s"
proof (induction w)
  case Nil
  then show ?case by simp
next
  case (Cons a w)
  have "hd old \<in> set old" using Cons.prems(1) by simp
  then have "hd old \<noteq> a" using Cons.prems(2) by auto
  then have "take (length old) (a # w @ s) \<noteq> old"
    using Cons.prems(1) by (cases old) auto
  then show ?case using Cons by (simp add: py_replace_skip)
qed

lemma take_append_sep:
  assumes "c \<notin> set old"
  shows "take (length old) (s @ c # t) = old \<longleftrightarrow> take (length old) s = old"
proof (cases "length old \<le> length s")
  case True
  then show ?thesis by simp
next
  case False
  then have l: "length s < length old" by simp
  have "take (length old) s \<noteq> old"
  proof
    assume "take (length old) s = old"
    then have "length (take (length old) s) = length old" by simp
    then show False using l by simp
  qed
  moreover have "take (length old) (s @ c # t) \<noteq> old"
  proof
    assume e: "take (length old) (s @ c # t) = old"
    have "c \<in> set (take (length old) (s @ c # t))"
      using l by (cases "length old - length s") auto
    then have "c \<in> set old" unfolding e .
    then show False using assms by blast
  qed
  ultimately show ?thesis by simp
qed

lemma py_replace_sep:
  assumes "old \<noteq> []" "c \<notin> set old"
  shows "py_replace old new (s @ c # t) = py_replace old new s @ c # py_replace old new t"
proof (induction "length s" arbitrary: s rule: less_induct)
  case less
  show ?case
  proof (cases s)
    case Nil
    then show ?thesis
      using py_replace_pass [of old "[c]" new t] assms by (simp add: py_replace_Nil)
  next
    case (Cons a s')
    show ?thesis
    proof (cases "take (length old) s = old")
      case True
      then have "length (take (length old) s) = length old" by simp
      then have len: "length old \<le> length s" by simp
      have t2: "take (length old) (s @ c # t) = old"
        using True take_append_sep [OF assms(2), of s t] by blast
      have d: "drop (length old) (s @ c # t) = drop (length old) s @ c # t" using len by simp
      have "length (drop (length old) s) < length s" using assms(1) Cons by simp
      then have ih: "py_replace old new (drop (length old) s @ c # t)
                   = py_replace old new (drop (length old) s) @ c # py_replace old new t"
        by (rule less)
      have "py_replace old new (s @ c # t) = new @ py_replace old new (drop (length old) s @ c # t)"
        using py_replace_take [of old "s @ c # t" new] t2 d assms(1) by simp
      moreover have "py_replace old new s = new @ py_replace old new (drop (length old) s)"
        using py_replace_take [of old s new] True assms(1) Cons by simp
      ultimately show ?thesis using ih by simp
    next
      case False
      then have t2: "take (length old) (s @ c # t) \<noteq> old"
        using take_append_sep [OF assms(2), of s t] by blast
      have ih: "py_replace old new (s' @ c # t) = py_replace old new s' @ c # py_replace old new t"
        by (rule less) (simp add: Cons)
      have "py_replace old new (a # s' @ c # t) = a # py_replace old new (s' @ c # t)"
        using t2 assms(1) Cons by (intro py_replace_skip) simp_all
      moreover have "py_replace old new (a # s') = a # py_replace old new s'"
        using False assms(1) Cons by (intro py_replace_skip) simp_all
      ultimately show ?thesis using ih Cons by simp
    qed
  qed
qed

lemma py_replace_pass_end:
  assumes "old \<noteq> []" "\<forall>c\<in>set w. c \<notin> set old"
  shows "py_replace old new (s @ w) = py_replace old new s @ w"
proof (cases w)
  case Nil
  then show ?thesis by simp
next
  case (Cons c w')
  have "py_replace old new w' = w'"
    using py_replace_pass [of old w' new "[]"] assms Cons by (simp add: py_replace_Nil)
  then show ?thesis using py_replace_sep [of old c new s w'] assms Cons by simp
qed

lemma py_strip_fixed:
  assumes "t \<noteq> []" "\<not> py_isspace (hd t)" "\<not> py_isspace (last t)"
  shows "py_strip t = t"
proof -
  have a: "dropWhile py_isspace t = t" using assms(1,2) by (cases t) simp_all
  have "rev t \<noteq> []" "\<not> py_isspace (hd (rev t))" using assms(1,3) by (simp_all add: hd_rev)
  then have b: "dropWhile py_isspace (rev t) = rev t" by (cases "rev t") simp_all
  show ?thesis unfolding py_strip_def a b by simp
qed

lemma py_strip_decompose:
  "\<exists>w1 w2. s = w1 @ py_strip s @ w2 \<and> (\<forall>c\<in>set w1. py_isspace c) \<and> (\<forall>c\<in>set w2. py_isspace c)"
proof -
  let ?v = "dropWhile py_isspace s"
  have 1: "s = takeWhile py_isspace s @ ?v" by simp
  have "rev (takeWhile py_isspace (rev ?v) @ dropWhile py_isspace (rev ?v)) = rev (rev ?v)"
    by (simp only: takeWhile_dropWhile_id)
  then have 2: "?v = py_strip s @ rev (takeWhile py_isspace (rev ?v))"
    by (simp only: rev_append rev_rev_ident py_strip_def)
  have 3: "\<forall>c\<in>set (takeWhile py_isspace s). py_isspace c" by (auto dest: set_takeWhileD)
  have 4: "\<forall>c\<in>set (rev (takeWhile py_isspace (rev ?v))). py_isspace c" by (auto dest: set_takeWhileD)
  have "s = takeWhile py_isspace s @ py_strip s @ rev (takeWhile py_isspace (rev ?v))"
    using 1 2 by metis
  then show ?thesis using 3 4 by blast
qed

lemma py_strip_pad:
  assumes "\<forall>c\<in>set w1. py_isspace c" "\<forall>c\<in>set w2. py_isspace c"
  shows "py_strip (w1 @ x @ w2) = py_strip x"
proof -
  have a: "dropWhile py_isspace (w1 @ x @ w2) = dropWhile py_isspace (x @ w2)"
    using assms(1) by (simp add: dropWhile_append2)
  show ?thesis
  proof (cases "\<forall>c\<in>set x. py_isspace c")
    case True
    then have "py_strip x = []" by (simp add: py_strip_Nil_iff)
    moreover have "py_strip (w1 @ x @ w2) = []" using True assms by (auto simp: py_strip_Nil_iff)
    ultimately show ?thesis by simp
  next
    case False
    then obtain c where c: "c \<in> set x" "\<not> py_isspace c" by blast
    then have b: "dropWhile py_isspace (x @ w2) = dropWhile py_isspace x @ w2"
      by (simp add: dropWhile_append1)
    have "dropWhile py_isspace (rev w2 @ rev (dropWhile py_isspace x))
          = dropWhile py_isspace (rev (dropWhile py_isspace x))"
      by (rule dropWhile_append2) (use assms(2) in auto)
    then show ?thesis unfolding py_strip_def a b by simp
  qed
qed

lemma py_strip_idem: "py_strip (py_strip s) = py_strip s"
proof -
  obtain w1 w2 where d: "s = w1 @ py_strip s @ w2" "\<forall>c\<in>set w1. py_isspace c" "\<forall>c\<in>set w2. py_isspace c"
    using py_strip_decompose by blast
  have "py_strip (w1 @ py_strip s @ w2) = py_strip (py_strip s)"
    using d(2,3) by (rule py_strip_pad)
  then show ?thesis using d(1) by simp
qed

lemma py_in_strip: "py_in old (py_strip s) \<Longrightarrow> py_in old s"
proof -
  assume a: "py_in old (py_strip s)"
  obtain w1 w2 where d: "s = w1 @ py_strip s @ w2" using py_strip_decompose by blast
  from a obtain ys zs where "py_strip s = ys @ old @ zs" unfolding py_in_iff by blast
  then have "s = (w1 @ ys) @ old @ (zs @ w2)" using d by simp
  then show ?thesis unfolding py_in_iff by blast
qed

lemma take3_run: "take 3 t = [c, c, c] \<longleftrightarrow> 3 \<le> length (takeWhile (\<lambda>x. x = c) t)"
proof (cases t)
  case Nil then show ?thesis by simp
next
  case (Cons a t1)
  show ?thesis
  proof (cases t1)
    case Nil then show ?thesis using Cons by simp
  next
    case (Cons b t2)
    note c2 = this
    show ?thesis
    proof (cases t2)
      case Nil then show ?thesis using \<open>t = a # t1\<close> c2 by simp
    next
      case (Cons d t3)
      then show ?thesis using \<open>t = a # t1\<close> c2 by (simp add: numeral_3_eq_3)
    qed
  qed
qed

lemma py_in_Cons3: "py_in [x, y, z] (a # t) \<longleftrightarrow> take 3 (a # t) = [x, y, z] \<or> py_in [x, y, z] t"
  by (simp add: numeral_3_eq_3)

lemma replace_run:
  "length (takeWhile (\<lambda>x. x = c) (py_replace [c, c, c] [] s)) = length (takeWhile (\<lambda>x. x = c) s) mod 3
   \<and> \<not> py_in [c, c, c] (py_replace [c, c, c] [] s)"
proof (induction "length s" arbitrary: s rule: less_induct)
  case less
  let ?R = "py_replace [c, c, c] []"
  let ?run = "\<lambda>s. length (takeWhile (\<lambda>x. x = c) s)"
  have l3: "length [c, c, c] = 3" by simp
  show ?case
  proof (cases s)
    case Nil
    then show ?thesis by (simp add: py_replace_Nil)
  next
    case (Cons a s')
    show ?thesis
    proof (cases "take 3 s = [c, c, c]")
      case True
      then have s: "s = [c, c, c] @ drop 3 s" by (metis append_take_drop_id)
      have "take (length [c, c, c]) s = [c, c, c]" using True by (simp only: l3)
      then have "?R s = [] @ ?R (drop (length [c, c, c]) s)"
        using Cons by (intro py_replace_take) simp_all
      then have r: "?R s = ?R (drop 3 s)" by (simp only: l3 append_Nil)
      have "length (drop 3 s) < length s" using Cons by simp
      then have ih: "?run (?R (drop 3 s)) = ?run (drop 3 s) mod 3 \<and> \<not> py_in [c, c, c] (?R (drop 3 s))"
        by (rule less)
      have "?run s = 3 + ?run (drop 3 s)" by (subst s) simp
      then show ?thesis using ih r by simp
    next
      case False
      have "take (length [c, c, c]) (a # s') \<noteq> [c, c, c]" using False unfolding Cons l3 .
      then have r: "?R s = a # ?R s'"
        unfolding Cons by (intro py_replace_skip) simp_all
      have ih: "?run (?R s') = ?run s' mod 3 \<and> \<not> py_in [c, c, c] (?R s')"
        by (rule less) (simp add: Cons)
      have small: "?run s < 3" using False take3_run [of s c] by simp
      show ?thesis
      proof (cases "a = c")
        case True
        then have "?run s = Suc (?run s')" using Cons by simp
        then have e: "?run (a # ?R s') = ?run s" using ih small True by simp
        then have "\<not> 3 \<le> ?run (a # ?R s')" using small by simp
        then have "take 3 (a # ?R s') \<noteq> [c, c, c]" using take3_run [of "a # ?R s'" c] by blast
        then have "\<not> py_in [c, c, c] (a # ?R s')" using ih unfolding py_in_Cons3 by blast
        then show ?thesis using e small r by simp
      next
        case False
        then show ?thesis using ih r Cons by simp
      qed
    qed
  qed
qed

lemma BACKTICKS_eq: "BACKTICKS = [96, 96, 96]" by (simp add: BACKTICKS_def)
lemma BACKTICKS_JSON_eq: "BACKTICKS_JSON = BACKTICKS @ [106, 115, 111, 110]"
  by (simp add: BACKTICKS_JSON_def BACKTICKS_def str_def)

lemma no_backticks_replace: "\<not> py_in BACKTICKS (py_replace BACKTICKS [] s)"
  unfolding BACKTICKS_eq using replace_run [of 96 s] by blast

lemma no_backticks_cleaned: "\<not> py_in BACKTICKS (cleaned_response text)"
  unfolding cleaned_response_def using no_backticks_replace py_in_strip by blast

lemma cleaned_without_backticks:
  assumes "\<not> py_in BACKTICKS s"
  shows "cleaned_response s = py_strip s"
proof -
  have 1: "\<not> py_in BACKTICKS (py_strip s)" using assms py_in_strip by blast
  then have 2: "\<not> py_in BACKTICKS_JSON (py_strip s)"
    unfolding BACKTICKS_JSON_eq using py_in_prefix by blast
  have "py_replace BACKTICKS_JSON [] (py_strip s) = py_strip s"
    using 2 by (intro py_replace_absent) (simp_all add: BACKTICKS_JSON_eq BACKTICKS_eq)
  moreover have "py_replace BACKTICKS [] (py_strip s) = py_strip s"
    using 1 by (intro py_replace_absent) (simp_all add: BACKTICKS_eq)
  ultimately show ?thesis by (simp add: cleaned_response_def py_strip_idem)
qed

lemma cleaned_response_idem: "cleaned_response (cleaned_response text) = cleaned_response text"
proof -
  have "cleaned_response (cleaned_response text) = py_strip (cleaned_response text)"
    using no_backticks_cleaned by (rule cleaned_without_backticks)
  also have "\<dots> = cleaned_response text" by (simp add: cleaned_response_def py_strip_idem)
  finally show ?thesis .
qed

lemma space_not_backticks_json: "py_isspace c \<Longrightarrow> c \<notin> set BACKTICKS_JSON"
  by (auto simp: BACKTICKS_JSON_eq BACKTICKS_eq py_isspace_def)

lemma space_not_backticks: "py_isspace c \<Longrightarrow> c \<notin> set BACKTICKS"
  by (auto simp: BACKTICKS_eq py_isspace_def)

lemma both_pad:
  assumes "\<forall>c\<in>set w1. py_isspace c" "\<forall>c\<in>set w2. py_isspace c"
  shows "both (w1 @ x @ w2) = w1 @ both x @ w2"
proof -
  have j1: "\<forall>c\<in>set w1. c \<notin> set BACKTICKS_JSON" and j2: "\<forall>c\<in>set w2. c \<notin> set BACKTICKS_JSON"
    using assms space_not_backticks_json by blast+
  have b1: "\<forall>c\<in>set w1. c \<notin> set BACKTICKS" and b2: "\<forall>c\<in>set w2. c \<notin> set BACKTICKS"
    using assms space_not_backticks by blast+
  have nj: "BACKTICKS_JSON \<noteq> []" and nb: "BACKTICKS \<noteq> []"
    by (simp_all add: BACKTICKS_JSON_eq BACKTICKS_eq)
  have "py_replace BACKTICKS_JSON [] (w1 @ x @ w2) = w1 @ py_replace BACKTICKS_JSON [] x @ w2"
    using py_replace_pass [OF nj j1] py_replace_pass_end [OF nj j2] by simp
  moreover have "py_replace BACKTICKS [] (w1 @ py_replace BACKTICKS_JSON [] x @ w2)
          = w1 @ py_replace BACKTICKS [] (py_replace BACKTICKS_JSON [] x) @ w2"
    using py_replace_pass [OF nb b1] py_replace_pass_end [OF nb b2] by simp
  ultimately show ?thesis by (simp add: both_def)
qed

lemma cleaned_response_alt: "cleaned_response s = py_strip (both s)"
proof -
  obtain w1 w2 where d: "s = w1 @ py_strip s @ w2" "\<forall>c\<in>set w1. py_isspace c" "\<forall>c\<in>set w2. py_isspace c"
    using py_strip_decompose by blast
  have "py_strip (both (w1 @ py_strip s @ w2)) = py_strip (both (py_strip s))"
    using d(2,3) by (simp add: both_pad py_strip_pad)
  then show ?thesis using d(1) by (simp add: cleaned_response_def both_def)
qed

lemma both_fenced: "both (fenced p) = [10] @ both p @ [10]"
proof -
  have nj: "BACKTICKS_JSON \<noteq> []" and nb: "BACKTICKS \<noteq> []"
    by (simp_all add: BACKTICKS_JSON_eq BACKTICKS_eq)
  have s1: "(10::nat) \<notin> set BACKTICKS_JSON" and s2: "(10::nat) \<notin> set BACKTICKS"
    by (simp_all add: BACKTICKS_JSON_eq BACKTICKS_eq)
  have tj: "py_replace BACKTICKS_JSON [] BACKTICKS = BACKTICKS"
    by (rule py_replace_absent [OF nj]) (simp add: BACKTICKS_JSON_eq BACKTICKS_eq)
  have tb: "py_replace BACKTICKS [] BACKTICKS = []"
    using py_replace_match [OF nb, of "[]" "[]"] by (simp add: py_replace_Nil nb)
  have "py_replace BACKTICKS_JSON [] (fenced p)
        = py_replace BACKTICKS_JSON [] ([10] @ p @ 10 # BACKTICKS)"
    unfolding fenced_def using py_replace_match [OF nj, of "[]" "[10] @ p @ 10 # BACKTICKS"] by simp
  also have "\<dots> = 10 # py_replace BACKTICKS_JSON [] (p @ 10 # BACKTICKS)"
    using py_replace_pass [OF nj, of "[10]" "[]" "p @ 10 # BACKTICKS"] s1 by simp
  also have "\<dots> = 10 # py_replace BACKTICKS_JSON [] p @ 10 # BACKTICKS"
    using py_replace_sep [OF nj s1, of "[]" p BACKTICKS] tj by simp
  finally have 1: "py_replace BACKTICKS_JSON [] (fenced p)
                 = 10 # py_replace BACKTICKS_JSON [] p @ 10 # BACKTICKS" .
  have "py_replace BACKTICKS [] (10 # py_replace BACKTICKS_JSON [] p @ 10 # BACKTICKS)
        = 10 # py_replace BACKTICKS [] (py_replace BACKTICKS_JSON [] p @ 10 # BACKTICKS)"
    using py_replace_pass [OF nb, of "[10]" "[]"] s2 by simp
  also have "\<dots> = 10 # py_replace BACKTICKS [] (py_replace BACKTICKS_JSON [] p) @ [10]"
    using py_replace_sep [OF nb s2, of "[]" _ BACKTICKS] tb by simp
  finally show ?thesis using 1 by (simp add: both_def)
qed

lemma cleaned_fenced: "cleaned_response (fenced p) = cleaned_response p"
proof -
  have "py_strip ([10] @ both p @ [10]) = py_strip (both p)"
    by (rule py_strip_pad) (simp_all add: py_isspace_def)
  then show ?thesis by (simp add: cleaned_response_alt both_fenced)
qed


section \<open>Facts about the functions of main.py\<close>

lemma print_fields [simp]:
  "clock (print l w) = clock w" "prompts (print l w) = prompts w" "db (print l w) = db w"
  "posts (print l w) = posts w" "sheet (print l w) = sheet w" "stdout (print l w) = stdout w @ [l]"
  by (simp_all add: print_def)

lemma tick_fields [simp]:
  "clock (tick w) = Suc (clock w)" "prompts (tick w) = prompts w" "db (tick w) = db w"
  "posts (tick w) = posts w" "sheet (tick w) = sheet w" "stdout (tick w) = stdout w"
  by (simp_all add: tick_def)

lemma py_lt_4_cases:
  "py_lt_4 v = Inl x \<longleftrightarrow> x = TypeError \<and> not_a_number v"
  "py_lt_4 v = Inr True \<longleftrightarrow> score_below_4 v"
  "py_lt_4 v = Inr False \<longleftrightarrow> score_at_least_4 v \<or> (\<exists>x. v = PFloat x \<and> float_is_nan x)"
  by (cases v; auto simp: float_lt_4_def)+

lemma py_lt_4_numeric: "\<not> not_a_number v \<Longrightarrow> \<exists>b. py_lt_4 v = Inr b"
  by (cases v) auto

lemma analyze_with_ai_result:
  "fst (analyze_with_ai e d w) =
     Inr (case generate_content e (clock w) d of
            AIRaises x \<Rightarrow> PNone
          | AIText t \<Rightarrow> (case loads e (cleaned_response t) of
                           Some (PDict kvs) \<Rightarrow>
                             (if print_value (dict_get kvs ALIGNMENT_SCORE PNone) = None
                              then PDict kvs else PNone)
                         | _ \<Rightarrow> PNone))"
  by (auto simp: analyze_with_ai_def analyze_try_def decode_response_def dict_get_def Let_def
      split: prod.splits sum.splits ai_outcome.splits option.splits pyval.splits)

lemma bind_parameters_member:
  "bind_parameters row = None \<Longrightarrow> v \<in> set row \<Longrightarrow> sqlite_bind v = None"
  by (induction row) (auto split: option.splits)

lemma bind_parameters_fails:
  "sqlite_bind v = Some x \<Longrightarrow> v \<in> set row \<Longrightarrow> bind_parameters row \<noteq> None"
  using bind_parameters_member by fastforce

lemma db_execute_bound: "db_execute e n row = None \<Longrightarrow> bind_parameters row = None"
  by (auto simp: db_execute_def split: option.splits)

lemma sqlite_bind_print: "sqlite_bind v = None \<Longrightarrow> print_value v = None"
  by (cases v) (auto split: if_splits)

lemma stored_score_printed:
  assumes "db_execute e n (insert_parameters q kvs) = None"
  shows "print_value (dict_get kvs ALIGNMENT_SCORE PNone) = None"
proof -
  have "dict_get kvs ALIGNMENT_SCORE PNone \<in> set (insert_parameters q kvs)"
    by (simp add: insert_parameters_def)
  then have "sqlite_bind (dict_get kvs ALIGNMENT_SCORE PNone) = None"
    using db_execute_bound [OF assms] bind_parameters_member by blast
  then show ?thesis by (rule sqlite_bind_print)
qed

lemma analyze_with_ai_world:
  "db (snd (analyze_with_ai e d w)) = db w"
  "posts (snd (analyze_with_ai e d w)) = posts w"
  "sheet (snd (analyze_with_ai e d w)) = sheet w"
  "clock (snd (analyze_with_ai e d w)) = Suc (clock w)"
  "prompts (snd (analyze_with_ai e d w)) = prompts w @ [d]"
  by (auto simp: analyze_with_ai_def analyze_try_def Let_def
      split: prod.splits sum.splits ai_outcome.splits option.splits)

lemma process_inquiry_skip:
  assumes "truthy (inquiry_get q OPPORTUNITY_DESCRIPTION)"
    and "\<not> truthy r"
    and "fst (analyze_with_ai e (inquiry_get q OPPORTUNITY_DESCRIPTION)
               (print (LogProcessing (inquiry_get q COMPANY_NAME)) w)) = Inr r"
  shows "fst (process_inquiry e q w) = Inr () \<and>
         db (snd (process_inquiry e q w)) = db w \<and>
         posts (snd (process_inquiry e q w)) = posts w \<and>
         sheet (snd (process_inquiry e q w)) = sheet w \<and>
         process_inquiries e (q # rest) w = process_inquiries e rest (snd (process_inquiry e q w))"
proof -
  let ?d = "inquiry_get q OPPORTUNITY_DESCRIPTION"
  let ?w0 = "print (LogProcessing (inquiry_get q COMPANY_NAME)) w"
  obtain w1 where a: "analyze_with_ai e ?d ?w0 = (Inr r, w1)"
    using assms(3) by (cases "analyze_with_ai e ?d ?w0") auto
  have w1: "db w1 = db w" "posts w1 = posts w" "sheet w1 = sheet w"
    using analyze_with_ai_world [of e ?d ?w0] a by simp_all
  have p: "process_inquiry e q w = (Inr (), print LogSkipAIFailure w1)"
    using assms(1,2) a by (simp add: process_inquiry_def Let_def)
  show ?thesis using w1 by (simp add: p)
qed

lemma write_cells_other:
  "\<not> (r = row \<and> c \<in> {6, 7, 8}) \<Longrightarrow> write_cells row 6 [a, b, d] g (r, c) = g (r, c)"
  by (auto simp: write_cells_def)

lemma write_cells_three:
  "write_cells row 6 [a, b, d] g (row, 6) = a"
  "write_cells row 6 [a, b, d] g (row, 7) = b"
  "write_cells row 6 [a, b, d] g (row, 8) = d"
  by (simp_all add: write_cells_def)

lemma send_slack_alert_keeps:
  "db (snd (send_slack_alert e q r w)) = db w"
  "sheet (snd (send_slack_alert e q r w)) = sheet w"
  by (cases r; auto simp: send_slack_alert_def Let_def split: sum.splits bool.splits post_outcome.splits)+

lemma update_sheet_keeps:
  "db (snd (update_sheet e n r w)) = db w"
  "posts (snd (update_sheet e n r w)) = posts w"
  by (cases r; auto simp: update_sheet_def Let_def split: option.splits)+


lemma store_in_database_ok:
  assumes "db_connect e (clock w) = None" "db_execute e (Suc (clock w)) (insert_parameters q kvs) = None"
  shows "fst (store_in_database e q (PDict kvs) w) = Inr ()"
    and "db (snd (store_in_database e q (PDict kvs) w)) = db w @ [insert_parameters q kvs]"
    and "clock (snd (store_in_database e q (PDict kvs) w)) = clock w + 2"
  using assms by (simp_all add: store_in_database_def Let_def)

lemma process_inquiry_classified:
  assumes "truthy (inquiry_get q OPPORTUNITY_DESCRIPTION)"
    and "generate_content e (clock w) (inquiry_get q OPPORTUNITY_DESCRIPTION) = AIText t"
    and "loads e (cleaned_response t) = Some (PDict kvs)"
    and "kvs \<noteq> []"
    and "print_value (dict_get kvs ALIGNMENT_SCORE PNone) = None"
  shows "\<exists>w1. analyze_with_ai e (inquiry_get q OPPORTUNITY_DESCRIPTION)
               (print (LogProcessing (inquiry_get q COMPANY_NAME)) w) = (Inr (PDict kvs), w1) \<and>
         clock w1 = Suc (clock w) \<and> db w1 = db w \<and> posts w1 = posts w \<and> sheet w1 = sheet w \<and>
         process_inquiry e q w =
           (case store_in_database e q (PDict kvs) w1 of
              (Inl x, w2) \<Rightarrow> (Inl x, w2)
            | (Inr u, w2) \<Rightarrow>
                (case send_slack_alert e q (PDict kvs) w2 of
                   (Inl x, w3) \<Rightarrow> (Inl x, w3)
                 | (Inr u, w3) \<Rightarrow>
                     (case q ROW_INDEX of
                        None \<Rightarrow> (Inl KeyError, w3)
                      | Some (PInt row_index) \<Rightarrow> update_sheet e row_index (PDict kvs) w3
                      | Some v \<Rightarrow> (Inl HttpError, w3))))"
proof -
  let ?d = "inquiry_get q OPPORTUNITY_DESCRIPTION"
  let ?w0 = "print (LogProcessing (inquiry_get q COMPANY_NAME)) w"
  have "fst (analyze_with_ai e ?d ?w0) = Inr (PDict kvs)"
    using assms(2,3,5) by (simp add: analyze_with_ai_result)
  then obtain w1 where a: "analyze_with_ai e ?d ?w0 = (Inr (PDict kvs), w1)"
    by (cases "analyze_with_ai e ?d ?w0") auto
  have w1: "clock w1 = Suc (clock w)" "db w1 = db w" "posts w1 = posts w" "sheet w1 = sheet w"
    using analyze_with_ai_world [of e ?d ?w0] a by simp_all
  have "process_inquiry e q w =
           (case store_in_database e q (PDict kvs) w1 of
              (Inl x, w2) \<Rightarrow> (Inl x, w2)
            | (Inr u, w2) \<Rightarrow>
                (case send_slack_alert e q (PDict kvs) w2 of
                   (Inl x, w3) \<Rightarrow> (Inl x, w3)
                 | (Inr u, w3) \<Rightarrow>
                     (case q ROW_INDEX of
                        None \<Rightarrow> (Inl KeyError, w3)
                      | Some (PInt row_index) \<Rightarrow> update_sheet e row_index (PDict kvs) w3
                      | Some v \<Rightarrow> (Inl HttpError, w3))))"
    using assms(1,4) a by (simp add: process_inquiry_def Let_def)
  then show ?thesis using a w1 by blast
qed

lemma insert_parameters_same:
  assumes "map_of kvs' SUMMARY = map_of kvs SUMMARY"
    and "map_of kvs' ALIGNMENT_SCORE = map_of kvs ALIGNMENT_SCORE"
  shows "insert_parameters q kvs' = insert_parameters q kvs"
  using assms by (simp add: insert_parameters_def dict_get_def)

lemma process_inquiry_stored:
  assumes "truthy (inquiry_get q OPPORTUNITY_DESCRIPTION)"
    and "generate_content e (clock w) (inquiry_get q OPPORTUNITY_DESCRIPTION) = AIText t"
    and "loads e (cleaned_response t) = Some (PDict kvs)"
    and "kvs \<noteq> []"
    and "db_connect e (Suc (clock w)) = None"
    and "db_execute e (clock w + 2) (insert_parameters q kvs) = None"
  shows "db (snd (process_inquiry e q w)) = db w @ [insert_parameters q kvs]"
proof -
  obtain w1 where w1: "clock w1 = Suc (clock w)" "db w1 = db w"
    and p: "process_inquiry e q w =
           (case store_in_database e q (PDict kvs) w1 of
              (Inl x, w2) \<Rightarrow> (Inl x, w2)
            | (Inr u, w2) \<Rightarrow>
                (case send_slack_alert e q (PDict kvs) w2 of
                   (Inl x, w3) \<Rightarrow> (Inl x, w3)
                 | (Inr u, w3) \<Rightarrow>
                     (case q ROW_INDEX of
                        None \<Rightarrow> (Inl KeyError, w3)
                      | Some (PInt row_index) \<Rightarrow> update_sheet e row_index (PDict kvs) w3
                      | Some v \<Rightarrow> (Inl HttpError, w3))))"
    using process_inquiry_classified [OF assms(1-4) stored_score_printed [OF assms(6)]] by blast
  have c: "db_connect e (clock w1) = None" "db_execute e (Suc (clock w1)) (insert_parameters q kvs) = None"
    using assms(5,6) w1 by simp_all
  obtain w2 where s: "store_in_database e q (PDict kvs) w1 = (Inr (), w2)"
    and d2: "db w2 = db w @ [insert_parameters q kvs]"
    using store_in_database_ok [OF c] w1
    by (cases "store_in_database e q (PDict kvs) w1") auto
  obtain r3 w3 where a: "send_slack_alert e q (PDict kvs) w2 = (r3, w3)" by (cases "send_slack_alert e q (PDict kvs) w2")
  have d3: "db w3 = db w2" using send_slack_alert_keeps(1) [of e q "PDict kvs" w2] a by simp
  show ?thesis
    using update_sheet_keeps(1) [of e _ "PDict kvs" w3]
    by (simp add: p s a d3 d2 split: sum.splits option.splits pyval.splits)
qed


lemma select_loop_row_index:
  "q \<in> set (select_loop header i rows []) \<Longrightarrow> \<exists>n. 1 \<le> n \<and> q ROW_INDEX = Some (PInt n)"
  by (auto simp: select_loop_enum)

lemma fetch_new_inquiries_row_index:
  assumes "fetch_new_inquiries e w = (Inr qs, w')" "q \<in> set qs"
  shows "\<exists>n. 1 \<le> n \<and> q ROW_INDEX = Some (PInt n)"
  using assms select_loop_row_index
  by (auto simp: fetch_new_inquiries_def Let_def split: sum.splits if_splits)

section \<open>Facts about the examples\<close>

lemma STATUS_neq: "OPPORTUNITY_DESCRIPTION \<noteq> STATUS"
  by (simp add: OPPORTUNITY_DESCRIPTION_def STATUS_def str_def)

lemma keys_distinct:
  "SUMMARY \<noteq> ALIGNMENT_SCORE" "SUMMARY \<noteq> SUGGESTED_NEXT_STEP" "ALIGNMENT_SCORE \<noteq> SUGGESTED_NEXT_STEP"
  "ALIGNMENT_SCORE \<noteq> SUMMARY" "SUGGESTED_NEXT_STEP \<noteq> SUMMARY" "SUGGESTED_NEXT_STEP \<noteq> ALIGNMENT_SCORE"
  by (simp_all add: SUMMARY_def ALIGNMENT_SCORE_def SUGGESTED_NEXT_STEP_def str_def)

lemma columns_distinct:
  "ROW_INDEX \<noteq> OPPORTUNITY_DESCRIPTION" "ROW_INDEX \<noteq> STATUS" "ROW_INDEX \<noteq> TIMESTAMP"
  "ROW_INDEX \<noteq> COMPANY_NAME" "ROW_INDEX \<noteq> CONTACT_EMAIL" "ROW_INDEX \<noteq> COMPANY_WEBSITE"
  "OPPORTUNITY_DESCRIPTION \<noteq> TIMESTAMP" "OPPORTUNITY_DESCRIPTION \<noteq> COMPANY_NAME"
  "OPPORTUNITY_DESCRIPTION \<noteq> CONTACT_EMAIL" "OPPORTUNITY_DESCRIPTION \<noteq> COMPANY_WEBSITE"
  "STATUS \<noteq> TIMESTAMP" "STATUS \<noteq> COMPANY_NAME" "STATUS \<noteq> CONTACT_EMAIL" "STATUS \<noteq> COMPANY_WEBSITE"
  by (simp_all add: ROW_INDEX_def OPPORTUNITY_DESCRIPTION_def STATUS_def TIMESTAMP_def
      COMPANY_NAME_def CONTACT_EMAIL_def COMPANY_WEBSITE_def str_def)

lemma crm_inquiry_fields:
  "crm_inquiry ROW_INDEX = Some (PInt 2)"
  "inquiry_get crm_inquiry OPPORTUNITY_DESCRIPTION = PStr (str ''crm'')"
  "inquiry_get crm_inquiry TIMESTAMP = PNone"
  "inquiry_get crm_inquiry COMPANY_NAME = PNone"
  "inquiry_get crm_inquiry CONTACT_EMAIL = PNone"
  "inquiry_get crm_inquiry COMPANY_WEBSITE = PNone"
  using columns_distinct STATUS_neq
  by (simp_all add: crm_inquiry_def inquiry_at_def inquiry_get_def three_rows_def dict_def
      columns_distinct [symmetric] STATUS_neq [symmetric])

lemma db_execute_healthy:
  "bind_parameters row = None \<Longrightarrow> db_execute (healthy vs ai dec) n row = None"
  by (simp add: db_execute_def healthy_def)

lemma encodable_str: "encodable (str cs)"
proof -
  have "(of_char c :: nat) < 256" for c
  proof -
    have "(of_char c :: nat) mod 256 < 256" by simp
    then show ?thesis by (simp only: of_char_mod_256)
  qed
  then have "\<not> is_surrogate (of_char c)" for c
    by (simp add: is_surrogate_def not_le less_imp_le less_trans [of _ 256 55296])
  then show ?thesis by (simp add: encodable_def str_def list_all_iff)
qed

lemma crm_truthy: "truthy (inquiry_get crm_inquiry OPPORTUNITY_DESCRIPTION)"
  by (simp add: crm_inquiry_fields str_def)

lemma world0_fields:
  "clock world0 = 0" "prompts world0 = []" "db world0 = []" "posts world0 = []" "stdout world0 = []"
  by (simp_all add: world0_def)

lemma healthy_fields:
  "credentials (healthy vs ai dec) = None" "sheet_get (healthy vs ai dec) = Inr (Some vs)"
  "generate_content (healthy vs ai dec) = ai" "loads (healthy vs ai dec) = dec"
  "db_connect (healthy vs ai dec) n = None" "db_prepare (healthy vs ai dec) n = None"
  "db_step (healthy vs ai dec) n row = None"
  "requests_post (healthy vs ai dec) n m = PostResponse 200 (str ''ok'')"
  "values_update (healthy vs ai dec) n r xs = None"
  by (simp_all add: healthy_def)

lemma good_text_clean: "cleaned_response good_text = good_text"
proof -
  have "\<not> py_in BACKTICKS good_text" by (simp add: good_text_def BACKTICKS_def str_def)
  then have "cleaned_response good_text = py_strip good_text" by (rule cleaned_without_backticks)
  moreover have "py_strip good_text = good_text"
    by (rule py_strip_fixed) (simp_all add: good_text_def str_def py_isspace_def)
  ultimately show ?thesis by simp
qed

lemma string_score_text_clean: "cleaned_response string_score_text = string_score_text"
proof -
  have "\<not> py_in BACKTICKS string_score_text" by (simp add: string_score_text_def BACKTICKS_def str_def)
  then have "cleaned_response string_score_text = py_strip string_score_text"
    by (rule cleaned_without_backticks)
  moreover have "py_strip string_score_text = string_score_text"
    by (rule py_strip_fixed) (simp_all add: string_score_text_def str_def py_isspace_def)
  ultimately show ?thesis by simp
qed

lemma example_clean:
  "cleaned_response (str ''{}'') = str ''{}''"
  "cleaned_response (str ''Sorry, no.'') = str ''Sorry, no.''"
  by (simp_all add: cleaned_response_def py_strip_def py_isspace_def
      BACKTICKS_def BACKTICKS_JSON_def str_def py_replace.simps)

lemma good_items_get:
  "dict_get good_items SUMMARY d = PStr (str ''B2B SaaS for logistics'')"
  "dict_get good_items ALIGNMENT_SCORE d = PInt 5"
  "dict_get good_items SUGGESTED_NEXT_STEP d = PStr (str ''Schedule initial screening call'')"
  by (simp_all add: dict_get_def good_items_def keys_distinct)

lemma string_score_items_get:
  "dict_get string_score_items SUMMARY d = PStr (str ''B2B SaaS for logistics'')"
  "dict_get string_score_items ALIGNMENT_SCORE d = PStr (str ''5'')"
  "dict_get string_score_items SUGGESTED_NEXT_STEP d = PStr (str ''Schedule initial screening call'')"
  by (simp_all add: dict_get_def string_score_items_def keys_distinct)

lemma good_items_ne: "good_items \<noteq> []" "string_score_items \<noteq> []"
  by (simp_all add: good_items_def string_score_items_def)

lemma three_rows_selected:
  "select_loop (hd three_rows) 0 (tl three_rows) []
     = [crm_inquiry, inquiry_at (hd three_rows) (tl three_rows) 2]"
proof -
  have u: "[0..<3] = [0, 1, 2]" by (simp add: upt_rec)
  have b0: "status_blank (hd three_rows) (tl three_rows ! 0)"
    by (simp add: status_blank_def three_rows_def dict_def STATUS_neq STATUS_neq [symmetric])
  have b1: "\<not> status_blank (hd three_rows) (tl three_rows ! 1)"
    by (simp add: status_blank_def three_rows_def dict_def STATUS_neq STATUS_neq [symmetric]
        PROCESSED_def str_def py_isspace_def)
  have b2: "status_blank (hd three_rows) (tl three_rows ! 2)"
    by (simp add: status_blank_def three_rows_def dict_def STATUS_neq STATUS_neq [symmetric]
        str_def py_isspace_def)
  have l: "length (tl three_rows) = 3" by (simp add: three_rows_def)
  have "filter (\<lambda>n. status_blank (hd three_rows) (tl three_rows ! n)) [0, 1, 2] = [0, 2]"
    using b0 b1 b2 by simp
  then show ?thesis unfolding select_loop_index l u by (simp add: crm_inquiry_def)
qed

lemma fetch_three_rows:
  assumes "sheet_get e = Inr (Some three_rows)"
  shows "fetch_new_inquiries e w
           = (Inr [crm_inquiry, inquiry_at (hd three_rows) (tl three_rows) 2], print (LogFound 2) w)"
proof -
  have l: "length three_rows = 4" "three_rows \<noteq> []" by (simp_all add: three_rows_def)
  show ?thesis by (simp add: fetch_new_inquiries_def assms l Let_def three_rows_selected)
qed

lemma crm_rows_bound:
  "bind_parameters (insert_parameters crm_inquiry good_items) = None"
  "bind_parameters (insert_parameters crm_inquiry string_score_items) = None"
  by (simp_all add: insert_parameters_def crm_inquiry_fields good_items_get string_score_items_get
      encodable_str PROCESSED_def)

lemma good_env_stores:
  "db_connect good_env n = None"
  "db_execute good_env n (insert_parameters crm_inquiry good_items) = None"
  by (simp_all add: good_env_def healthy_fields db_execute_healthy crm_rows_bound)


lemma no_table_env_fields:
  "credentials no_table_env = None" "sheet_get no_table_env = Inr (Some three_rows)"
  "generate_content no_table_env n d = AIText good_text"
  "loads no_table_env (cleaned_response good_text) = Some (PDict good_items)"
  "db_connect no_table_env n = None"
  "db_execute no_table_env n row = Some DatabaseError"
  by (simp_all add: no_table_env_def good_env_def healthy_fields ai_says_def good_text_clean
      decoder_of_def db_execute_def)

section \<open>Facts about a run of the program\<close>

lemma classification_Some:
  assumes "classification e q w = Some kvs"
  shows "truthy (inquiry_get q OPPORTUNITY_DESCRIPTION)"
    and "\<exists>t. generate_content e (clock w) (inquiry_get q OPPORTUNITY_DESCRIPTION) = AIText t \<and>
             loads e (cleaned_response t) = Some (PDict kvs)"
    and "kvs \<noteq> []"
    and "print_value (dict_get kvs ALIGNMENT_SCORE PNone) = None"
  using assms
  by (auto simp: classification_def split: if_splits ai_outcome.splits option.splits pyval.splits)

lemma classification_None:
  assumes "classification e q w = None"
  shows "fst (process_inquiry e q w) = Inr ()"
proof (cases "truthy (inquiry_get q OPPORTUNITY_DESCRIPTION)")
  case False
  then show ?thesis by (simp add: process_inquiry_def Let_def)
next
  case True
  let ?d = "inquiry_get q OPPORTUNITY_DESCRIPTION"
  let ?w0 = "print (LogProcessing (inquiry_get q COMPANY_NAME)) w"
  obtain r where r: "fst (analyze_with_ai e ?d ?w0) = Inr r"
    by (simp add: analyze_with_ai_result)
  have "\<not> truthy r"
    using r assms True
    by (auto simp: analyze_with_ai_result classification_def
        split: ai_outcome.splits option.splits pyval.splits if_splits)
  then show ?thesis using process_inquiry_skip [OF True _ r] by simp
qed

lemma plus_numerals: "n + 3 = Suc (Suc (Suc n))" "n + 4 = Suc (Suc (Suc (Suc n)))"
  by simp_all

lemma process_inquiry_raises_iff:
  assumes "classification e q w = Some kvs"
  shows "fst (process_inquiry e q w) = Inl x \<longleftrightarrow> step_raises e q w kvs x"
proof -
  obtain t where g: "generate_content e (clock w) (inquiry_get q OPPORTUNITY_DESCRIPTION) = AIText t"
    and l: "loads e (cleaned_response t) = Some (PDict kvs)"
    using classification_Some(2) [OF assms] by blast
  obtain w1 where w1: "clock w1 = Suc (clock w)"
    and p: "process_inquiry e q w =
           (case store_in_database e q (PDict kvs) w1 of
              (Inl x, w2) \<Rightarrow> (Inl x, w2)
            | (Inr u, w2) \<Rightarrow>
                (case send_slack_alert e q (PDict kvs) w2 of
                   (Inl x, w3) \<Rightarrow> (Inl x, w3)
                 | (Inr u, w3) \<Rightarrow>
                     (case q ROW_INDEX of
                        None \<Rightarrow> (Inl KeyError, w3)
                      | Some (PInt row_index) \<Rightarrow> update_sheet e row_index (PDict kvs) w3
                      | Some v \<Rightarrow> (Inl HttpError, w3))))"
    using process_inquiry_classified
            [OF classification_Some(1) [OF assms] g l classification_Some(3,4) [OF assms]]
    by blast
  show ?thesis
    unfolding p
    by (auto simp: step_raises_def write_back_raises_def store_in_database_def
        send_slack_alert_def update_sheet_def alert_message_def Let_def w1 plus_numerals
        split: option.splits sum.splits bool.splits post_outcome.splits pyval.splits)
qed

lemma process_inquiries_raises_iff:
  "fst (process_inquiries e qs w) = Inl x \<longleftrightarrow>
     (\<exists>done q rest w2. qs = done @ q # rest \<and> process_inquiries e done w = (Inr (), w2) \<and>
        fst (process_inquiry e q w2) = Inl x)"
proof (induction qs arbitrary: w)
  case Nil
  then show ?case by simp
next
  case (Cons a qs)
  obtain r w1 where a: "process_inquiry e a w = (r, w1)" by (cases "process_inquiry e a w")
  show ?case
  proof (cases r)
    case (Inl y)
    have "(\<exists>done q rest w2. a # qs = done @ q # rest \<and> process_inquiries e done w = (Inr (), w2) \<and>
        fst (process_inquiry e q w2) = Inl x) \<longleftrightarrow> y = x"
    proof
      assume "\<exists>done q rest w2. a # qs = done @ q # rest \<and> process_inquiries e done w = (Inr (), w2) \<and>
        fst (process_inquiry e q w2) = Inl x"
      then obtain done' q rest w2 where d: "a # qs = done' @ q # rest"
        "process_inquiries e done' w = (Inr (), w2)" "fst (process_inquiry e q w2) = Inl x" by blast
      show "y = x"
      proof (cases done')
        case Nil
        then show ?thesis using d a Inl by simp
      next
        case (Cons b bs)
        then show ?thesis using d a Inl by simp
      qed
    next
      assume "y = x"
      then have "a # qs = [] @ a # qs \<and> process_inquiries e [] w = (Inr (), w) \<and>
        fst (process_inquiry e a w) = Inl x" using a Inl by simp
      then show "\<exists>done q rest w2. a # qs = done @ q # rest \<and> process_inquiries e done w = (Inr (), w2) \<and>
        fst (process_inquiry e q w2) = Inl x" by blast
    qed
    then show ?thesis using a Inl by simp
  next
    case (Inr u)
    have "(\<exists>done q rest w2. a # qs = done @ q # rest \<and> process_inquiries e done w = (Inr (), w2) \<and>
        fst (process_inquiry e q w2) = Inl x) \<longleftrightarrow>
          (\<exists>done q rest w2. qs = done @ q # rest \<and> process_inquiries e done w1 = (Inr (), w2) \<and>
        fst (process_inquiry e q w2) = Inl x)"
    proof
      assume "\<exists>done q rest w2. a # qs = done @ q # rest \<and> process_inquiries e done w = (Inr (), w2) \<and>
        fst (process_inquiry e q w2) = Inl x"
      then obtain done' q rest w2 where d: "a # qs = done' @ q # rest"
        "process_inquiries e done' w = (Inr (), w2)" "fst (process_inquiry e q w2) = Inl x" by blast
      show "\<exists>done q rest w2. qs = done @ q # rest \<and> process_inquiries e done w1 = (Inr (), w2) \<and>
        fst (process_inquiry e q w2) = Inl x"
      proof (cases done')
        case Nil
        then show ?thesis using d a Inr by simp
      next
        case (Cons b bs)
        then have "qs = bs @ q # rest \<and> process_inquiries e bs w1 = (Inr (), w2)"
          using d a Inr by simp
        then show ?thesis using d(3) by blast
      qed
    next
      assume "\<exists>done q rest w2. qs = done @ q # rest \<and> process_inquiries e done w1 = (Inr (), w2) \<and>
        fst (process_inquiry e q w2) = Inl x"
      then obtain done' q rest w2 where d: "qs = done' @ q # rest"
        "process_inquiries e done' w1 = (Inr (), w2)" "fst (process_inquiry e q w2) = Inl x" by blast
      have "a # qs = (a # done') @ q # rest \<and> process_inquiries e (a # done') w = (Inr (), w2)"
        using d a Inr by simp
      then show "\<exists>done q rest w2. a # qs = done @ q # rest \<and> process_inquiries e done w = (Inr (), w2) \<and>
        fst (process_inquiry e q w2) = Inl x" using d(3) by blast
    qed
    then show ?thesis using a Inr Cons.IH [of w1] by simp
  qed
qed

lemma fetch_raises_iff: "fst (fetch_new_inquiries e w) = Inl x \<longleftrightarrow> sheet_get e = Inl x"
  by (auto simp: fetch_new_inquiries_def Let_def split: sum.splits)

lemma main_raises_iff:
  "fst (main e w) = Inl x \<longleftrightarrow>
     credentials e = Some x \<or>
     credentials e = None \<and>
       (sheet_get e = Inl x \<or>
        (\<exists>done q rest w1 w2 kvs.
           fetch_new_inquiries e (print LogStarting w) = (Inr (done @ q # rest), w1) \<and>
           process_inquiries e done w1 = (Inr (), w2) \<and>
           classification e q w2 = Some kvs \<and> step_raises e q w2 kvs x))"
proof (cases "credentials e")
  case (Some y)
  then show ?thesis by (simp add: main_def Let_def get_google_sheets_service_def)
next
  case None
  let ?w0 = "print LogStarting w"
  obtain r w1 where f: "fetch_new_inquiries e ?w0 = (r, w1)" by (cases "fetch_new_inquiries e ?w0")
  show ?thesis
  proof (cases r)
    case (Inl y)
    then have "sheet_get e = Inl y" using f fetch_raises_iff [of e ?w0 y] by simp
    then show ?thesis using None f Inl by (simp add: main_def Let_def get_google_sheets_service_def)
  next
    case (Inr qs)
    have ns: "sheet_get e \<noteq> Inl x" using f Inr fetch_raises_iff [of e ?w0 x] by auto
    have m: "fst (main e w) = Inl x \<longleftrightarrow> fst (process_inquiries e qs w1) = Inl x"
      using None f Inr
      by (cases "process_inquiries e qs w1")
         (auto simp: main_def Let_def get_google_sheets_service_def split: sum.splits)
    have "fst (process_inquiries e qs w1) = Inl x \<longleftrightarrow>
          (\<exists>done q rest w2 kvs. qs = done @ q # rest \<and> process_inquiries e done w1 = (Inr (), w2) \<and>
             classification e q w2 = Some kvs \<and> step_raises e q w2 kvs x)"
    proof
      assume "fst (process_inquiries e qs w1) = Inl x"
      then obtain done' q rest w2 where d: "qs = done' @ q # rest"
        "process_inquiries e done' w1 = (Inr (), w2)" "fst (process_inquiry e q w2) = Inl x"
        unfolding process_inquiries_raises_iff by blast
      obtain kvs where k: "classification e q w2 = Some kvs"
        using d(3) classification_None [of e q w2] by (cases "classification e q w2") auto
      then have "step_raises e q w2 kvs x" using d(3) process_inquiry_raises_iff by blast
      then show "\<exists>done q rest w2 kvs. qs = done @ q # rest \<and> process_inquiries e done w1 = (Inr (), w2) \<and>
             classification e q w2 = Some kvs \<and> step_raises e q w2 kvs x"
        using d(1,2) k by blast
    next
      assume "\<exists>done q rest w2 kvs. qs = done @ q # rest \<and> process_inquiries e done w1 = (Inr (), w2) \<and>
             classification e q w2 = Some kvs \<and> step_raises e q w2 kvs x"
      then obtain done' q rest w2 kvs where d: "qs = done' @ q # rest"
        "process_inquiries e done' w1 = (Inr (), w2)"
        "classification e q w2 = Some kvs" "step_raises e q w2 kvs x" by blast
      have "fst (process_inquiry e q w2) = Inl x" using d(3,4) process_inquiry_raises_iff by blast
      then show "fst (process_inquiries e qs w1) = Inl x"
        unfolding process_inquiries_raises_iff using d(1,2) by blast
    qed
    then show ?thesis using m None ns f Inr by auto
  qed
qed

lemma foldl_update_Some:
  "foldl (\<lambda>m (k, v). m(k \<mapsto> v)) m0 kvs k = Some v \<Longrightarrow> (k, v) \<in> set kvs \<or> m0 k = Some v"
proof (induction kvs arbitrary: m0)
  case Nil
  then show ?case by simp
next
  case (Cons a kvs)
  obtain k' v' where a: "a = (k', v')" by (cases a)
  have "foldl (\<lambda>m (k, v). m(k \<mapsto> v)) (m0(k' \<mapsto> v')) kvs k = Some v"
    using Cons.prems unfolding a foldl_Cons prod.case .
  then have "(k, v) \<in> set kvs \<or> (m0(k' \<mapsto> v')) k = Some v" by (rule Cons.IH)
  then show ?case using a by (auto split: if_splits)
qed

lemma dict_Some: "dict kvs k = Some v \<Longrightarrow> (k, v) \<in> set kvs"
  using foldl_update_Some [of Map.empty kvs k v] by (simp add: dict_def)

lemma select_loop_cells:
  assumes "q \<in> set (select_loop header i rows [])" "k \<noteq> ROW_INDEX"
  shows "inquiry_get q k = PNone \<or> (\<exists>row\<in>set rows. \<exists>cell\<in>set row. inquiry_get q k = PStr cell)"
proof -
  obtain n row where r: "(n, row) \<in> set (enumerate i rows)"
    and q: "q = (map_option PStr \<circ> dict (zip header row))(ROW_INDEX \<mapsto> PInt (int n + 2))"
    using assms(1) by (auto simp: select_loop_enum)
  have row: "row \<in> set rows" using r by (auto simp: in_set_enumerate_eq)
  show ?thesis
  proof (cases "dict (zip header row) k")
    case None
    then show ?thesis using q assms(2) by (simp add: inquiry_get_def)
  next
    case (Some cell)
    then have "(k, cell) \<in> set (zip header row)" by (rule dict_Some)
    then have "cell \<in> set row" by (rule set_zip_rightD)
    moreover have "inquiry_get q k = PStr cell" using q assms(2) Some by (simp add: inquiry_get_def)
    ultimately show ?thesis using row by blast
  qed
qed

lemma fetched_bindable:
  assumes "fetch_new_inquiries e w = (Inr qs, w')"
    and "\<forall>vs. sheet_get e = Inr (Some vs) \<longrightarrow> (\<forall>row\<in>set vs. \<forall>cell\<in>set row. encodable cell)"
    and "q \<in> set qs" "k \<noteq> ROW_INDEX"
  shows "sqlite_bind (inquiry_get q k) = None"
proof -
  obtain vs where v: "sheet_get e = Inr (Some vs)" "vs \<noteq> []" "q \<in> set (select_loop (hd vs) 0 (tl vs) [])"
    using assms(1,3)
    by (auto simp: fetch_new_inquiries_def Let_def split: sum.splits if_splits option.splits)
  have "set (tl vs) \<subseteq> set vs" using v(2) by (cases vs) auto
  then have "\<forall>row\<in>set (tl vs). \<forall>cell\<in>set row. encodable cell" using assms(2) v(1) by blast
  then show ?thesis using select_loop_cells [OF v(3) assms(4)] by auto
qed

lemma no_step_raises:
  assumes up: "services_up e" and fit: "data_fit e"
    and f: "fetch_new_inquiries e w = (Inr qs, w')" and q: "q \<in> set qs"
    and c: "classification e q w2 = Some kvs"
  shows "\<not> step_raises e q w2 kvs x"
proof -
  obtain t where g: "generate_content e (clock w2) (inquiry_get q OPPORTUNITY_DESCRIPTION) = AIText t"
    and l: "loads e (cleaned_response t) = Some (PDict kvs)"
    using classification_Some(2) [OF c] by blast
  have s: "sqlite_bind (dict_get kvs SUMMARY PNone) = None"
    "sqlite_bind (dict_get kvs ALIGNMENT_SCORE PNone) = None"
    "\<not> not_a_number (dict_get kvs ALIGNMENT_SCORE (PInt 0))"
    using fit g l unfolding data_fit_def by blast+
  have cells: "\<forall>vs. sheet_get e = Inr (Some vs) \<longrightarrow> (\<forall>row\<in>set vs. \<forall>cell\<in>set row. encodable cell)"
    using fit unfolding data_fit_def by blast
  have b: "sqlite_bind (inquiry_get q k) = None" if "k \<noteq> ROW_INDEX" for k
    using fetched_bindable [OF f cells q that] .
  have "bind_parameters (insert_parameters q kvs) = None"
    using s(1,2) b columns_distinct
    by (simp add: insert_parameters_def columns_distinct [symmetric] encodable_str PROCESSED_def)
  then have x: "db_execute e n (insert_parameters q kvs) = None" for n
    using up by (simp add: db_execute_def services_up_def)
  obtain r where r: "q ROW_INDEX = Some (PInt r)"
    using fetch_new_inquiries_row_index [OF f q] by blast
  obtain b' where lt: "py_lt_4 (dict_get kvs ALIGNMENT_SCORE (PInt 0)) = Inr b'"
    using s(3) py_lt_4_numeric by blast
  have post: "\<exists>status_code body. requests_post e n m = PostResponse status_code body" for n m
    using up unfolding services_up_def by blast
  have u: "values_update e n r vs = None" for n vs
    using up by (simp add: services_up_def)
  have c: "db_connect e n = None" for n using up by (simp add: services_up_def)
  show ?thesis
    using post [of "clock w2 + 3" "alert_message q kvs"]
    by (cases b') (auto simp: step_raises_def write_back_raises_def c x lt r u)
qed

lemma main_no_raise:
  assumes "services_up e" "data_fit e"
  shows "fst (main e w) = Inr ()"
proof (cases "fst (main e w)")
  case (Inl x)
  have "credentials e = None" "sheet_get e \<noteq> Inl x"
    using assms(1) by (auto simp: services_up_def)
  then obtain done' q rest w1 w2 kvs where
    d: "fetch_new_inquiries e (print LogStarting w) = (Inr (done' @ q # rest), w1)"
       "classification e q w2 = Some kvs" "step_raises e q w2 kvs x"
    using Inl unfolding main_raises_iff by auto
  have "q \<in> set (done' @ q # rest)" by simp
  then show ?thesis using no_step_raises [OF assms d(1) _ d(2)] d(3) by blast
next
  case (Inr u)
  then show ?thesis by simp
qed

lemma process_inquiries_append:
  "process_inquiries e done w = (Inr (), w2) \<Longrightarrow>
   process_inquiries e (done @ qs) w = process_inquiries e qs w2"
proof (induction "done" arbitrary: w)
  case Nil
  then show ?case by simp
next
  case (Cons a as)
  obtain r w1 where a: "process_inquiry e a w = (r, w1)" by (cases "process_inquiry e a w")
  show ?case
  proof (cases r)
    case (Inl y)
    then show ?thesis using Cons.prems a by simp
  next
    case (Inr u)
    then show ?thesis using Cons a by simp
  qed
qed

lemma main_stops:
  assumes "credentials e = None"
    and "fetch_new_inquiries e (print LogStarting w) = (Inr (done @ q # rest), w1)"
    and "process_inquiries e done w1 = (Inr (), w2)"
    and "fst (process_inquiry e q w2) = Inl x"
  shows "main e w = (Inl x, snd (process_inquiry e q w2))"
proof -
  obtain w3 where p: "process_inquiry e q w2 = (Inl x, w3)"
    using assms(4) by (cases "process_inquiry e q w2") auto
  have "process_inquiries e (done @ q # rest) w1 = process_inquiries e (q # rest) w2"
    using assms(3) by (rule process_inquiries_append)
  then have "process_inquiries e (done @ q # rest) w1 = (Inl x, w3)" using p by simp
  then show ?thesis
    using assms(1,2) p by (simp add: main_def Let_def get_google_sheets_service_def)
qed

section \<open>Facts about the score of a classification\<close>










section \<open>Facts about the runs of the examples\<close>

lemma good_env_fields:
  "credentials good_env = None" "sheet_get good_env = Inr (Some three_rows)"
  "generate_content good_env n d = AIText good_text"
  "loads good_env (cleaned_response good_text) = Some (PDict good_items)"
  "db_connect good_env n = None" "db_prepare good_env n = None" "db_step good_env n row = None"
  "requests_post good_env n m = PostResponse 200 (str ''ok'')"
  "values_update good_env n r xs = None"
  by (simp_all add: good_env_def healthy_fields ai_says_def good_text_clean decoder_of_def)

lemma three_rows_encodable: "\<forall>row\<in>set three_rows. \<forall>cell\<in>set row. encodable cell"
  by (simp add: three_rows_def encodable_str OPPORTUNITY_DESCRIPTION_def STATUS_def PROCESSED_def)

lemma good_env_up: "services_up good_env" "data_fit good_env"
  using three_rows_encodable
  by (auto simp: services_up_def data_fit_def good_env_def healthy_fields decoder_of_def
      ai_says_def good_text_clean good_items_get encodable_str split: if_splits)

lemma garbled_env_up: "services_up garbled_env" "data_fit garbled_env"
  using three_rows_encodable
  by (auto simp: services_up_def data_fit_def garbled_env_def healthy_fields no_decoder_def)

lemma down_env_up: "services_up down_env" "data_fit down_env"
  using three_rows_encodable
  by (auto simp: services_up_def data_fit_def down_env_def healthy_fields ai_down_def)

lemma empty_tab_up:
  "services_up (healthy [] ai_down no_decoder)" "data_fit (healthy [] ai_down no_decoder)"
  by (auto simp: services_up_def data_fit_def healthy_fields ai_down_def)

text \<open>The examples start at the first data row: the world when the loop begins.\<close>

lemma crm_classification:
  assumes "generate_content e (clock w) (PStr (str ''crm'')) = AIText t"
    and "loads e (cleaned_response t) = Some (PDict kvs)"
    and "kvs \<noteq> []"
    and "print_value (dict_get kvs ALIGNMENT_SCORE PNone) = None"
  shows "classification e crm_inquiry w = Some kvs"
  using assms crm_truthy
  by (simp add: classification_def crm_inquiry_fields)

lemma first_inquiry_raises:
  assumes "sheet_get e = Inr (Some three_rows)"
    and "classification e crm_inquiry (print (LogFound 2) (print LogStarting w)) = Some kvs"
    and "step_raises e crm_inquiry (print (LogFound 2) (print LogStarting w)) kvs x"
  shows "\<exists>done q rest w1 w2 kvs.
           fetch_new_inquiries e (print LogStarting w) = (Inr (done @ q # rest), w1) \<and>
           process_inquiries e done w1 = (Inr (), w2) \<and>
           classification e q w2 = Some kvs \<and> step_raises e q w2 kvs x"
proof -
  let ?w1 = "print (LogFound 2) (print LogStarting w)"
  let ?q2 = "inquiry_at (hd three_rows) (tl three_rows) 2"
  have "fetch_new_inquiries e (print LogStarting w) = (Inr ([] @ crm_inquiry # [?q2]), ?w1)"
    using fetch_three_rows [OF assms(1)] by simp
  moreover have "process_inquiries e [] ?w1 = (Inr (), ?w1)" by simp
  ultimately show ?thesis using assms(2,3) by blast
qed

lemma string_score_env_fields:
  "credentials string_score_env = None" "sheet_get string_score_env = Inr (Some three_rows)"
  "classification string_score_env crm_inquiry w = Some string_score_items"
  "db_connect string_score_env n = None"
  "db_execute string_score_env n (insert_parameters crm_inquiry string_score_items) = None"
proof -
  show "classification string_score_env crm_inquiry w = Some string_score_items"
    by (rule crm_classification [of _ _ string_score_text])
       (simp_all add: string_score_env_def healthy_fields ai_says_def string_score_text_clean
          decoder_of_def good_items_ne string_score_items_get encodable_str)
qed (simp_all add: string_score_env_def healthy_fields db_execute_healthy crm_rows_bound)

lemma good_items_printed: "print_value (dict_get good_items ALIGNMENT_SCORE PNone) = None"
  by (simp add: good_items_get)

lemma failing_env_fields:
  "credentials no_credentials_env = Some CredentialsError"
  "credentials no_sheet_env = None" "sheet_get no_sheet_env = Inl HttpError"
  "credentials no_database_env = None" "sheet_get no_database_env = Inr (Some three_rows)"
  "classification no_database_env crm_inquiry w = Some good_items"
  "credentials slack_down_env = None" "sheet_get slack_down_env = Inr (Some three_rows)"
  "classification slack_down_env crm_inquiry w = Some good_items"
  "credentials read_only_env = None" "sheet_get read_only_env = Inr (Some three_rows)"
  "classification read_only_env crm_inquiry w = Some good_items"
proof -
  show "classification no_database_env crm_inquiry w = Some good_items"
    by (rule crm_classification [of _ _ good_text, OF _ _ good_items_ne(1) good_items_printed])
       (simp_all add: no_database_env_def good_env_fields)
  show "classification slack_down_env crm_inquiry w = Some good_items"
    by (rule crm_classification [of _ _ good_text, OF _ _ good_items_ne(1) good_items_printed])
       (simp_all add: slack_down_env_def good_env_fields)
  show "classification read_only_env crm_inquiry w = Some good_items"
    by (rule crm_classification [of _ _ good_text, OF _ _ good_items_ne(1) good_items_printed])
       (simp_all add: read_only_env_def good_env_fields)
qed (simp_all add: no_credentials_env_def no_sheet_env_def no_database_env_def slack_down_env_def
      read_only_env_def good_env_fields)

lemma failing_env_steps:
  "step_raises no_database_env crm_inquiry w good_items DatabaseError"
  "step_raises string_score_env crm_inquiry w string_score_items TypeError"
  "step_raises slack_down_env crm_inquiry w good_items RequestException"
  "step_raises read_only_env crm_inquiry w good_items HttpError"
proof -
  have x: "db_execute (good_env\<lparr>requests_post := f\<rparr>) n (insert_parameters crm_inquiry good_items) = None"
    "db_execute (good_env\<lparr>values_update := g\<rparr>) n (insert_parameters crm_inquiry good_items) = None"
    for f g n
    by (simp_all add: db_execute_def good_env_fields crm_rows_bound)
  show "step_raises no_database_env crm_inquiry w good_items DatabaseError"
    by (simp add: step_raises_def no_database_env_def)
  show "step_raises string_score_env crm_inquiry w string_score_items TypeError"
    by (simp add: step_raises_def string_score_env_fields string_score_items_get)
  show "step_raises slack_down_env crm_inquiry w good_items RequestException"
    by (simp add: step_raises_def slack_down_env_def good_env_fields x good_items_get)
  show "step_raises read_only_env crm_inquiry w good_items HttpError"
    by (simp add: step_raises_def write_back_raises_def read_only_env_def good_env_fields x
        good_items_get crm_inquiry_fields)
qed

lemma score_texts_clean:
  "cleaned_response list_score_text = list_score_text"
  "cleaned_response surrogate_text = surrogate_text"
  "cleaned_response float_score_text = float_score_text"
proof -
  have "\<not> py_in BACKTICKS list_score_text" by (simp add: list_score_text_def BACKTICKS_def str_def)
  then have "cleaned_response list_score_text = py_strip list_score_text"
    by (rule cleaned_without_backticks)
  moreover have "py_strip list_score_text = list_score_text"
    by (rule py_strip_fixed) (simp_all add: list_score_text_def str_def py_isspace_def)
  ultimately show "cleaned_response list_score_text = list_score_text" by simp
  have "\<not> py_in BACKTICKS surrogate_text" by (simp add: surrogate_text_def BACKTICKS_def str_def)
  then have "cleaned_response surrogate_text = py_strip surrogate_text"
    by (rule cleaned_without_backticks)
  moreover have "py_strip surrogate_text = surrogate_text"
    by (rule py_strip_fixed) (simp_all add: surrogate_text_def str_def py_isspace_def)
  ultimately show "cleaned_response surrogate_text = surrogate_text" by simp
  have "\<not> py_in BACKTICKS float_score_text" by (simp add: float_score_text_def BACKTICKS_def str_def)
  then have "cleaned_response float_score_text = py_strip float_score_text"
    by (rule cleaned_without_backticks)
  moreover have "py_strip float_score_text = float_score_text"
    by (rule py_strip_fixed) (simp_all add: float_score_text_def str_def py_isspace_def)
  ultimately show "cleaned_response float_score_text = float_score_text" by simp
qed

lemma score_items_get:
  "dict_get list_score_items ALIGNMENT_SCORE d = PList [PInt 5]"
  "dict_get list_score_items SUMMARY d = PStr (str ''B2B SaaS for logistics'')"
  "dict_get surrogate_items ALIGNMENT_SCORE d = PStr [55296]"
  "dict_get float_score_items ALIGNMENT_SCORE d = PFloat 0x4012000000000000"
  "dict_get float_score_items SUMMARY d = PStr (str ''B2B SaaS for logistics'')"
  by (simp_all add: dict_get_def list_score_items_def surrogate_items_def float_score_items_def
      keys_distinct)

lemma score_items_ne:
  "list_score_items \<noteq> []" "surrogate_items \<noteq> []" "float_score_items \<noteq> []"
  by (simp_all add: list_score_items_def surrogate_items_def float_score_items_def)




lemma pos_inquiry_fields:
  "pos_inquiry ROW_INDEX = Some (PInt 4)"
  "inquiry_get pos_inquiry OPPORTUNITY_DESCRIPTION = PStr (str ''pos'')"
  using columns_distinct STATUS_neq
  by (simp_all add: pos_inquiry_def inquiry_at_def inquiry_get_def three_rows_def dict_def
      columns_distinct [symmetric] STATUS_neq [symmetric])

lemma process_inquiry_clock:
  assumes "truthy (inquiry_get q OPPORTUNITY_DESCRIPTION)"
    and "generate_content e (clock w) (inquiry_get q OPPORTUNITY_DESCRIPTION) = AIRaises x"
  shows "fst (process_inquiry e q w) = Inr ()" and "clock (snd (process_inquiry e q w)) = Suc (clock w)"
proof -
  let ?d = "inquiry_get q OPPORTUNITY_DESCRIPTION"
  let ?w0 = "print (LogProcessing (inquiry_get q COMPANY_NAME)) w"
  have r: "fst (analyze_with_ai e ?d ?w0) = Inr PNone"
    using assms(2) by (simp add: analyze_with_ai_result)
  then obtain w1 where a: "analyze_with_ai e ?d ?w0 = (Inr PNone, w1)"
    by (cases "analyze_with_ai e ?d ?w0") auto
  have c: "clock w1 = Suc (clock w)" using analyze_with_ai_world(4) [of e ?d ?w0] a by simp
  have p: "process_inquiry e q w = (Inr (), print LogSkipAIFailure w1)"
    using assms(1) a by (simp add: process_inquiry_def Let_def)
  show "fst (process_inquiry e q w) = Inr ()" "clock (snd (process_inquiry e q w)) = Suc (clock w)"
    using c by (simp_all add: p)
qed

lemma second_fails_run:
  "credentials second_fails_env = None"
  "\<exists>done q rest w1 w2 kvs.
     fetch_new_inquiries second_fails_env (print LogStarting world0) = (Inr (done @ q # rest), w1) \<and>
     process_inquiries second_fails_env done w1 = (Inr (), w2) \<and>
     classification second_fails_env q w2 = Some kvs \<and>
     step_raises second_fails_env q w2 kvs DatabaseError"
proof -
  let ?e = second_fails_env
  let ?w1 = "print (LogFound 2) (print LogStarting world0)"
  let ?w2 = "snd (process_inquiry ?e crm_inquiry ?w1)"
  show "credentials ?e = None" by (simp add: second_fails_env_def good_env_fields)
  have s: "sheet_get ?e = Inr (Some three_rows)" by (simp add: second_fails_env_def good_env_fields)
  have f: "fetch_new_inquiries ?e (print LogStarting world0) = (Inr ([crm_inquiry] @ pos_inquiry # []), ?w1)"
    using fetch_three_rows [OF s] by (simp add: pos_inquiry_def)
  have g: "generate_content ?e (clock ?w1) (inquiry_get crm_inquiry OPPORTUNITY_DESCRIPTION)
             = AIRaises GenerationError"
    by (simp add: second_fails_env_def world0_fields)
  have c: "fst (process_inquiry ?e crm_inquiry ?w1) = Inr ()" "clock ?w2 = 1"
    using process_inquiry_clock [OF crm_truthy g] by (simp_all add: world0_fields)
  have p: "process_inquiries ?e [crm_inquiry] ?w1 = (Inr (), ?w2)"
    using c(1) by (cases "process_inquiry ?e crm_inquiry ?w1") simp
  have ge: "generate_content ?e (Suc 0) d = AIText good_text" for d
    by (simp add: second_fails_env_def)
  have l: "loads ?e (cleaned_response good_text) = Some (PDict good_items)"
    by (simp add: second_fails_env_def good_env_fields)
  have k: "classification ?e pos_inquiry ?w2 = Some good_items"
    by (simp add: classification_def pos_inquiry_fields c(2) ge l good_items_ne good_items_get
        str_def)
  have r: "step_raises ?e pos_inquiry ?w2 good_items DatabaseError"
    by (simp add: step_raises_def second_fails_env_def)
  show "\<exists>done q rest w1 w2 kvs.
     fetch_new_inquiries ?e (print LogStarting world0) = (Inr (done @ q # rest), w1) \<and>
     process_inquiries ?e done w1 = (Inr (), w2) \<and>
     classification ?e q w2 = Some kvs \<and> step_raises ?e q w2 kvs DatabaseError"
    using f p k r by blast
qed

lemma list_score_env_fields:
  "credentials list_score_env = None" "sheet_get list_score_env = Inr (Some three_rows)"
  "classification list_score_env crm_inquiry w = Some list_score_items"
  "step_raises list_score_env crm_inquiry w list_score_items ProgrammingError"
proof -
  show "classification list_score_env crm_inquiry w = Some list_score_items"
    by (rule crm_classification [of _ _ list_score_text])
       (simp_all add: list_score_env_def healthy_fields ai_says_def score_texts_clean
          decoder_of_def score_items_ne score_items_get)
  have "bind_parameters (insert_parameters crm_inquiry list_score_items) = Some ProgrammingError"
    by (simp add: insert_parameters_def crm_inquiry_fields score_items_get encodable_str
        PROCESSED_def)
  then show "step_raises list_score_env crm_inquiry w list_score_items ProgrammingError"
    by (simp add: step_raises_def db_execute_def list_score_env_def healthy_fields)
qed (simp_all add: list_score_env_def healthy_fields)

section \<open>Facts about the decoder\<close>

lemma json_strip_decompose:
  "\<exists>w1 w2. s = w1 @ rev (dropWhile json_space (rev (dropWhile json_space s))) @ w2 \<and>
     (\<forall>c\<in>set w1. json_space c) \<and> (\<forall>c\<in>set w2. json_space c)"
proof -
  let ?v = "dropWhile json_space s"
  have 1: "s = takeWhile json_space s @ ?v" by simp
  have "rev (takeWhile json_space (rev ?v) @ dropWhile json_space (rev ?v)) = rev (rev ?v)"
    by (simp only: takeWhile_dropWhile_id)
  then have 2: "?v = rev (dropWhile json_space (rev ?v)) @ rev (takeWhile json_space (rev ?v))"
    by (simp only: rev_append rev_rev_ident)
  have 3: "\<forall>c\<in>set (takeWhile json_space s). json_space c" by (auto dest: set_takeWhileD)
  have 4: "\<forall>c\<in>set (rev (takeWhile json_space (rev ?v))). json_space c" by (auto dest: set_takeWhileD)
  have "s = takeWhile json_space s @ rev (dropWhile json_space (rev ?v))
              @ rev (takeWhile json_space (rev ?v))"
    using 1 2 by metis
  then show ?thesis using 3 4 by blast
qed

lemma json_space_py_isspace: "json_space c \<Longrightarrow> py_isspace c"
  by (auto simp: json_space_def py_isspace_def)

lemma empty_object_decoder_safe: "strip_safe empty_object_decoder"
  unfolding strip_safe_def
proof (intro allI impI)
  fix s v
  assume a: "empty_object_decoder s = Some v"
  then have j: "rev (dropWhile json_space (rev (dropWhile json_space s))) = str ''{}''"
    and v: "v = PDict []"
    by (auto simp: empty_object_decoder_def split: if_splits)
  obtain w1 w2 where d: "s = w1 @ str ''{}'' @ w2"
    "\<forall>c\<in>set w1. json_space c" "\<forall>c\<in>set w2. json_space c"
    using json_strip_decompose [of s] unfolding j by blast
  have "py_strip (w1 @ str ''{}'' @ w2) = py_strip (str ''{}'')"
    by (rule py_strip_pad) (use d(2,3) json_space_py_isspace in blast)+
  moreover have "py_strip (str ''{}'') = str ''{}''"
    by (rule py_strip_fixed) (simp_all add: str_def py_isspace_def)
  ultimately have "py_strip s = str ''{}''" using d(1) by simp
  moreover have "empty_object_decoder (str ''{}'') = Some (PDict [])"
    by (simp add: empty_object_decoder_def json_space_def str_def)
  ultimately show "empty_object_decoder (py_strip s) = Some v" using v by simp
qed

lemma cleaned_response_decodes:
  assumes "\<not> py_in BACKTICKS payload" "strip_safe json_loads" "json_loads payload = Some v"
  shows "json_loads (cleaned_response (fenced payload)) = Some v"
    and "json_loads (cleaned_response payload) = Some v"
proof -
  have "json_loads (py_strip payload) = Some v"
    using assms(2,3) unfolding strip_safe_def by blast
  then show "json_loads (cleaned_response payload) = Some v"
    using cleaned_without_backticks [OF assms(1)] by simp
  then show "json_loads (cleaned_response (fenced payload)) = Some v"
    by (simp add: cleaned_fenced)
qed

section \<open>Properties of the pipeline\<close>

text \<open>
  C1. When the read of the tab succeeds, the selector raises nothing. With fewer than
  two rows it returns the empty list. Otherwise it returns, in the order of the rows,
  the inquiries of exactly the data rows whose Status is absent or holds only
  whitespace, and the inquiry of the data row of index \<open>n\<close> (from 0) carries the
  position \<open>n + 2\<close>.
\<close>

theorem fetch_new_inquiries_selects:
  assumes "sheet_get e = Inr result"
  shows "fst (fetch_new_inquiries e w) =
     Inr (let values = (case result of None \<Rightarrow> [] | Some vs \<Rightarrow> vs) in
          if length values < 2 then []
          else map (inquiry_at (hd values) (tl values))
                 (filter (\<lambda>n. status_blank (hd values) (tl values ! n))
                    [0..<length (tl values)]))"
  using assms
  by (auto simp: fetch_new_inquiries_def Let_def select_loop_index split: option.splits)

theorem fetch_new_inquiries_selects_witness:
  "sheet_get (healthy three_rows ai_down no_decoder) = Inr (Some three_rows) \<and>
   fst (fetch_new_inquiries (healthy three_rows ai_down no_decoder) world0) =
     Inr [inquiry_at (hd three_rows) (tl three_rows) 0, inquiry_at (hd three_rows) (tl three_rows) 2] \<and>
   inquiry_at (hd three_rows) (tl three_rows) 0 ROW_INDEX = Some (PInt 2) \<and>
   inquiry_at (hd three_rows) (tl three_rows) 2 ROW_INDEX = Some (PInt 4)"
proof -
  have s: "sheet_get (healthy three_rows ai_down no_decoder) = Inr (Some three_rows)"
    by (simp add: healthy_def)
  have u: "[0..<3] = [0, 1, 2]" by (simp add: upt_rec)
  have b0: "status_blank (hd three_rows) (tl three_rows ! 0)"
    by (simp add: status_blank_def three_rows_def dict_def STATUS_neq STATUS_neq [symmetric])
  have b1: "\<not> status_blank (hd three_rows) (tl three_rows ! 1)"
    by (simp add: status_blank_def three_rows_def dict_def STATUS_neq STATUS_neq [symmetric]
        PROCESSED_def str_def py_isspace_def)
  have b2: "status_blank (hd three_rows) (tl three_rows ! 2)"
    by (simp add: status_blank_def three_rows_def dict_def STATUS_neq STATUS_neq [symmetric]
        str_def py_isspace_def)
  have l: "length three_rows = 4" "length (tl three_rows) = 3" by (simp_all add: three_rows_def)
  show ?thesis
    using fetch_new_inquiries_selects [OF s, of world0] b0 b1 b2
    by (simp add: s l u inquiry_at_def)
qed

text \<open>
  C2. The classifier never raises: whatever the completion call and the decoder do,
  \<open>analyze_with_ai\<close> returns. When the completion call raises, and when the decoder
  rejects the cleaned text, it returns \<open>None\<close>. Whenever it returns \<open>None\<close> for an
  inquiry, the loop body ends without an exception, leaves the table, the posts and
  the sheet as they were, and the loop goes on with the next inquiry.
\<close>

theorem analyze_with_ai_never_raises:
  "(\<forall>x. fst (analyze_with_ai e d w) \<noteq> Inl x) \<and>
   (\<forall>x. generate_content e (clock w) d = AIRaises x \<longrightarrow> fst (analyze_with_ai e d w) = Inr PNone) \<and>
   (\<forall>t. generate_content e (clock w) d = AIText t \<longrightarrow> loads e (cleaned_response t) = None \<longrightarrow>
        fst (analyze_with_ai e d w) = Inr PNone) \<and>
   (truthy (inquiry_get q OPPORTUNITY_DESCRIPTION) \<longrightarrow>
    fst (analyze_with_ai e (inquiry_get q OPPORTUNITY_DESCRIPTION)
          (print (LogProcessing (inquiry_get q COMPANY_NAME)) w)) = Inr PNone \<longrightarrow>
      fst (process_inquiry e q w) = Inr () \<and>
      db (snd (process_inquiry e q w)) = db w \<and>
      posts (snd (process_inquiry e q w)) = posts w \<and>
      sheet (snd (process_inquiry e q w)) = sheet w \<and>
      process_inquiries e (q # rest) w = process_inquiries e rest (snd (process_inquiry e q w)))"
proof -
  have 1: "\<forall>x. fst (analyze_with_ai e d w) \<noteq> Inl x" by (simp add: analyze_with_ai_result)
  have 2: "\<forall>x. generate_content e (clock w) d = AIRaises x \<longrightarrow> fst (analyze_with_ai e d w) = Inr PNone"
    by (simp add: analyze_with_ai_result)
  have 3: "\<forall>t. generate_content e (clock w) d = AIText t \<longrightarrow> loads e (cleaned_response t) = None \<longrightarrow>
        fst (analyze_with_ai e d w) = Inr PNone"
    by (simp add: analyze_with_ai_result)
  show ?thesis using 1 2 3 process_inquiry_skip [of q PNone e w rest] by simp
qed

text \<open>
  The model is down for one run and answers a text that is no JSON for another: both
  give \<open>None\<close>, and the second inquiry of the list is processed next.
\<close>

theorem analyze_with_ai_never_raises_witness:
  "generate_content down_env (clock world0) (inquiry_get crm_inquiry OPPORTUNITY_DESCRIPTION)
     = AIRaises GenerationError \<and>
   generate_content garbled_env (clock world0) (inquiry_get crm_inquiry OPPORTUNITY_DESCRIPTION)
     = AIText (str ''Sorry, no.'') \<and>
   loads garbled_env (cleaned_response (str ''Sorry, no.'')) = None \<and>
   truthy (inquiry_get crm_inquiry OPPORTUNITY_DESCRIPTION) \<and>
   fst (analyze_with_ai down_env (inquiry_get crm_inquiry OPPORTUNITY_DESCRIPTION) world0) = Inr PNone \<and>
   fst (analyze_with_ai garbled_env (inquiry_get crm_inquiry OPPORTUNITY_DESCRIPTION) world0) = Inr PNone \<and>
   fst (process_inquiry garbled_env crm_inquiry world0) = Inr () \<and>
   db (snd (process_inquiry garbled_env crm_inquiry world0)) = [] \<and>
   posts (snd (process_inquiry garbled_env crm_inquiry world0)) = [] \<and>
   process_inquiries garbled_env [crm_inquiry, blank_inquiry] world0
     = process_inquiries garbled_env [blank_inquiry] (snd (process_inquiry garbled_env crm_inquiry world0))"
proof -
  let ?d = "inquiry_get crm_inquiry OPPORTUNITY_DESCRIPTION"
  have 1: "generate_content down_env (clock world0) ?d = AIRaises GenerationError"
    by (simp add: down_env_def healthy_fields ai_down_def)
  have 2: "generate_content garbled_env n ?d = AIText (str ''Sorry, no.'')" for n
    by (simp add: garbled_env_def healthy_fields ai_says_def)
  have 3: "loads garbled_env (cleaned_response (str ''Sorry, no.'')) = None"
    by (simp add: garbled_env_def healthy_fields no_decoder_def)
  have 4: "fst (analyze_with_ai garbled_env ?d (print (LogProcessing (inquiry_get crm_inquiry COMPANY_NAME)) world0))
           = Inr PNone"
    using analyze_with_ai_never_raises
            [of garbled_env ?d "print (LogProcessing (inquiry_get crm_inquiry COMPANY_NAME)) world0"]
          2 3 by simp
  have w: "db world0 = []" "posts world0 = []" by (simp_all add: world0_def)
  show ?thesis
    using analyze_with_ai_never_raises [of down_env ?d world0 crm_inquiry "[blank_inquiry]"]
          analyze_with_ai_never_raises [of garbled_env ?d world0 crm_inquiry "[blank_inquiry]"]
          1 2 3 4 crm_truthy w
    by simp
qed

text \<open>
  C3. For every inquiry and classification: with a score of at least 4 the notifier
  issues exactly one post (one call more on the clock); with the score absent or below
  4 it issues none, makes no call and returns; with a score that is no number (such as
  null) it issues none either; and a response to the post with a status other than 200
  is printed and the notifier returns without an exception.
\<close>

theorem send_slack_alert_posts:
  "(score_at_least_4 (dict_get kvs ALIGNMENT_SCORE (PInt 0)) \<longrightarrow>
      posts (snd (send_slack_alert e q (PDict kvs) w)) = posts w @ [alert_message q kvs] \<and>
      clock (snd (send_slack_alert e q (PDict kvs) w)) = Suc (clock w)) \<and>
   (map_of kvs ALIGNMENT_SCORE = None \<or> score_below_4 (dict_get kvs ALIGNMENT_SCORE (PInt 0)) \<longrightarrow>
      send_slack_alert e q (PDict kvs) w = (Inr (), print LogSkipSlack w) \<and>
      posts (snd (send_slack_alert e q (PDict kvs) w)) = posts w \<and>
      clock (snd (send_slack_alert e q (PDict kvs) w)) = clock w) \<and>
   (not_a_number (dict_get kvs ALIGNMENT_SCORE (PInt 0)) \<longrightarrow>
      posts (snd (send_slack_alert e q (PDict kvs) w)) = posts w \<and>
      clock (snd (send_slack_alert e q (PDict kvs) w)) = clock w) \<and>
   (score_at_least_4 (dict_get kvs ALIGNMENT_SCORE (PInt 0)) \<longrightarrow>
      (\<forall>status_code text.
         requests_post e (clock w) (alert_message q kvs) = PostResponse status_code text \<longrightarrow>
         status_code \<noteq> 200 \<longrightarrow>
           fst (send_slack_alert e q (PDict kvs) w) = Inr () \<and>
           stdout (snd (send_slack_alert e q (PDict kvs) w))
             = stdout w @ [LogSlackFailed status_code text]))"
proof -
  let ?s = "dict_get kvs ALIGNMENT_SCORE (PInt 0)"
  have absent: "map_of kvs ALIGNMENT_SCORE = None \<Longrightarrow> score_below_4 ?s"
    by (simp add: dict_get_def)
  have hi: "score_at_least_4 ?s \<Longrightarrow> py_lt_4 ?s = Inr False"
    by (simp add: py_lt_4_cases)
  have lo: "score_below_4 ?s \<Longrightarrow> py_lt_4 ?s = Inr True"
    by (simp add: py_lt_4_cases)
  have 1: "score_at_least_4 ?s \<Longrightarrow>
      posts (snd (send_slack_alert e q (PDict kvs) w)) = posts w @ [alert_message q kvs] \<and>
      clock (snd (send_slack_alert e q (PDict kvs) w)) = Suc (clock w)"
    using hi by (auto simp: send_slack_alert_def alert_message_def Let_def split: post_outcome.splits)
  have 2: "score_below_4 ?s \<Longrightarrow> send_slack_alert e q (PDict kvs) w = (Inr (), print LogSkipSlack w)"
    using lo by (simp add: send_slack_alert_def)
  have 3: "score_at_least_4 ?s \<Longrightarrow>
         requests_post e (clock w) (alert_message q kvs) = PostResponse status_code body \<Longrightarrow>
         status_code \<noteq> 200 \<Longrightarrow>
           fst (send_slack_alert e q (PDict kvs) w) = Inr () \<and>
           stdout (snd (send_slack_alert e q (PDict kvs) w))
             = stdout w @ [LogSlackFailed status_code body]" for status_code body
    using hi by (simp add: send_slack_alert_def alert_message_def Let_def)
  have 4: "not_a_number ?s \<Longrightarrow> send_slack_alert e q (PDict kvs) w = (Inl TypeError, w)"
    using py_lt_4_cases(1) [of ?s TypeError] by (simp add: send_slack_alert_def)
  show ?thesis using 1 2 3 4 absent by auto
qed

text \<open>
  Score 5 with a webhook that answers 500: one post, the failure printed, no exception.
  Score 3, and no score: no post. Score 4.5, a float: one post.
\<close>

theorem send_slack_alert_posts_witness:
  "score_at_least_4 (dict_get good_items ALIGNMENT_SCORE (PInt 0)) \<and>
   posts (snd (send_slack_alert slack_500_env crm_inquiry (PDict good_items) world0))
     = [alert_message crm_inquiry good_items] \<and>
   requests_post slack_500_env (clock world0) (alert_message crm_inquiry good_items)
     = PostResponse 500 (str ''no_service'') \<and>
   fst (send_slack_alert slack_500_env crm_inquiry (PDict good_items) world0) = Inr () \<and>
   stdout (snd (send_slack_alert slack_500_env crm_inquiry (PDict good_items) world0))
     = [LogSlackFailed 500 (str ''no_service'')] \<and>
   score_below_4 (dict_get [(ALIGNMENT_SCORE, PInt 3)] ALIGNMENT_SCORE (PInt 0)) \<and>
   posts (snd (send_slack_alert slack_500_env crm_inquiry (PDict [(ALIGNMENT_SCORE, PInt 3)]) world0)) = [] \<and>
   map_of [(SUMMARY, PStr [])] ALIGNMENT_SCORE = None \<and>
   posts (snd (send_slack_alert slack_500_env crm_inquiry (PDict [(SUMMARY, PStr [])]) world0)) = [] \<and>
   score_at_least_4 (dict_get [(ALIGNMENT_SCORE, PFloat 0x4012000000000000)] ALIGNMENT_SCORE (PInt 0)) \<and>
   length (posts (snd (send_slack_alert slack_500_env crm_inquiry
                        (PDict [(ALIGNMENT_SCORE, PFloat 0x4012000000000000)]) world0))) = 1"
proof -
  have 1: "score_at_least_4 (dict_get good_items ALIGNMENT_SCORE (PInt 0))"
    by (simp add: good_items_get)
  have 2: "requests_post slack_500_env (clock world0) (alert_message crm_inquiry good_items)
     = PostResponse 500 (str ''no_service'')" by (simp add: slack_500_env_def)
  have 3: "score_below_4 (dict_get [(ALIGNMENT_SCORE, PInt 3)] ALIGNMENT_SCORE (PInt 0))"
    by (simp add: dict_get_def)
  have 4: "map_of [(SUMMARY, PStr [])] ALIGNMENT_SCORE = None" by (simp add: keys_distinct)
  have 5: "score_at_least_4 (dict_get [(ALIGNMENT_SCORE, PFloat 0x4012000000000000)] ALIGNMENT_SCORE (PInt 0))"
    by (simp add: dict_get_def float_lt_4_def float_is_nan_def bit_iff_odd_drop_bit)
  have w: "posts world0 = []" "stdout world0 = []" by (simp_all add: world0_def)
  have f: "length (posts (snd (send_slack_alert slack_500_env crm_inquiry
                        (PDict [(ALIGNMENT_SCORE, PFloat 0x4012000000000000)]) world0))) = 1"
    using send_slack_alert_posts
            [of "[(ALIGNMENT_SCORE, PFloat 0x4012000000000000)]" slack_500_env crm_inquiry world0] 5 w
    by simp
  show ?thesis
    using f 5 send_slack_alert_posts [of good_items slack_500_env crm_inquiry world0]
          send_slack_alert_posts [of "[(ALIGNMENT_SCORE, PInt 3)]" slack_500_env crm_inquiry world0]
          send_slack_alert_posts [of "[(SUMMARY, PStr [])]" slack_500_env crm_inquiry world0]
          1 2 3 4 w
    by simp
qed

text \<open>
  C4, as amended. For every inquiry whose classification succeeds, when the database
  accepts the INSERT, the row added to the table is: the five inquiry fields Timestamp,
  Company Name, Contact Email, Company Website and Opportunity Description, the literal
  Processed, and two derived fields, the summary and the alignment score. The row is
  the same for every classification with that summary and that score: the suggested
  next step is not stored.
\<close>

theorem store_receives_two_derived_fields:
  assumes "truthy (inquiry_get q OPPORTUNITY_DESCRIPTION)"
    and "generate_content e (clock w) (inquiry_get q OPPORTUNITY_DESCRIPTION) = AIText t"
    and "loads e (cleaned_response t) = Some (PDict kvs)"
    and "kvs \<noteq> []"
    and "db_connect e (Suc (clock w)) = None"
    and "db_execute e (clock w + 2) (insert_parameters q kvs) = None"
  shows "db (snd (process_inquiry e q w)) =
           db w @ [[inquiry_get q TIMESTAMP, inquiry_get q COMPANY_NAME, inquiry_get q CONTACT_EMAIL,
                    inquiry_get q COMPANY_WEBSITE, inquiry_get q OPPORTUNITY_DESCRIPTION,
                    PStr PROCESSED, dict_get kvs SUMMARY PNone, dict_get kvs ALIGNMENT_SCORE PNone]] \<and>
         (\<forall>kvs'. map_of kvs' SUMMARY = map_of kvs SUMMARY \<longrightarrow>
                 map_of kvs' ALIGNMENT_SCORE = map_of kvs ALIGNMENT_SCORE \<longrightarrow>
                 insert_parameters q kvs' = insert_parameters q kvs)"
proof -
  have "db (snd (process_inquiry e q w)) = db w @ [insert_parameters q kvs]"
    by (rule process_inquiry_stored [OF assms])
  then have 1: "db (snd (process_inquiry e q w)) =
           db w @ [[inquiry_get q TIMESTAMP, inquiry_get q COMPANY_NAME, inquiry_get q CONTACT_EMAIL,
                    inquiry_get q COMPANY_WEBSITE, inquiry_get q OPPORTUNITY_DESCRIPTION,
                    PStr PROCESSED, dict_get kvs SUMMARY PNone, dict_get kvs ALIGNMENT_SCORE PNone]]"
    by (simp only: insert_parameters_def)
  show ?thesis using 1 insert_parameters_same by blast
qed

text \<open>
  The scenario of the specification, on the first data row of the example tab.
\<close>

theorem store_receives_two_derived_fields_witness:
  "truthy (inquiry_get crm_inquiry OPPORTUNITY_DESCRIPTION) \<and>
   generate_content good_env (clock world0) (inquiry_get crm_inquiry OPPORTUNITY_DESCRIPTION)
     = AIText good_text \<and>
   loads good_env (cleaned_response good_text) = Some (PDict good_items) \<and>
   good_items \<noteq> [] \<and>
   db (snd (process_inquiry good_env crm_inquiry world0)) =
     [[PNone, PNone, PNone, PNone, PStr (str ''crm''), PStr PROCESSED,
       PStr (str ''B2B SaaS for logistics''), PInt 5]]"
proof -
  have 1: "truthy (inquiry_get crm_inquiry OPPORTUNITY_DESCRIPTION)" by (rule crm_truthy)
  have 2: "generate_content good_env (clock world0) (inquiry_get crm_inquiry OPPORTUNITY_DESCRIPTION)
     = AIText good_text" by (simp add: good_env_def healthy_fields ai_says_def)
  have 3: "loads good_env (cleaned_response good_text) = Some (PDict good_items)"
    by (simp add: good_env_def healthy_fields good_text_clean decoder_of_def)
  have 4: "good_items \<noteq> []" by (rule good_items_ne)
  have 5: "db_connect good_env (Suc (clock world0)) = None"
    by (simp add: good_env_def healthy_fields)
  have 6: "db_execute good_env (clock world0 + 2) (insert_parameters crm_inquiry good_items) = None"
    by (rule good_env_stores)
  show ?thesis
    using store_receives_two_derived_fields [OF 1 2 3 4 5 6] 1 2 3 4
    by (simp add: crm_inquiry_fields good_items_get world0_def)
qed

text \<open>
  C4 as stated fails: in that scenario the classification carries a suggested next
  step, and the row stored holds no such value.
\<close>

theorem store_drops_next_step:
  "dict_get good_items SUGGESTED_NEXT_STEP PNone = PStr (str ''Schedule initial screening call'') \<and>
   db (snd (process_inquiry good_env crm_inquiry world0)) =
     [[PNone, PNone, PNone, PNone, PStr (str ''crm''), PStr PROCESSED,
       PStr (str ''B2B SaaS for logistics''), PInt 5]] \<and>
   PStr (str ''Schedule initial screening call'')
     \<notin> set (concat (db (snd (process_inquiry good_env crm_inquiry world0))))"
proof -
  have 1: "truthy (inquiry_get crm_inquiry OPPORTUNITY_DESCRIPTION)" by (rule crm_truthy)
  have 2: "generate_content good_env (clock world0) (inquiry_get crm_inquiry OPPORTUNITY_DESCRIPTION)
     = AIText good_text" by (simp add: good_env_def healthy_fields ai_says_def)
  have 3: "loads good_env (cleaned_response good_text) = Some (PDict good_items)"
    by (simp add: good_env_def healthy_fields good_text_clean decoder_of_def)
  have 5: "db_connect good_env (Suc (clock world0)) = None"
    by (simp add: good_env_def healthy_fields)
  have 6: "db_execute good_env (clock world0 + 2) (insert_parameters crm_inquiry good_items) = None"
    by (rule good_env_stores)
  have d: "db (snd (process_inquiry good_env crm_inquiry world0)) =
     [[PNone, PNone, PNone, PNone, PStr (str ''crm''), PStr PROCESSED,
       PStr (str ''B2B SaaS for logistics''), PInt 5]]"
    using process_inquiry_stored [OF 1 2 3 good_items_ne(1) 5 6]
    by (simp add: insert_parameters_def crm_inquiry_fields good_items_get world0_def)
  show ?thesis unfolding d by (simp add: good_items_get str_def PROCESSED_def)
qed

text \<open>
  C5, as amended. For every payload, cleaning the payload inside a fenced block gives
  the same text as cleaning the payload alone, so the classifier decodes both to the
  same result, whatever the decoder. Cleaning is idempotent on every text, and no
  cleaned text holds a triple backtick: the ones of the payload are removed. For every
  payload with no triple backtick in it, the cleaned text is the payload without the
  whitespace around it: nothing of the payload is lost; and when the payload is a JSON
  document, decoded to \<open>v\<close>, the cleaned text decodes to \<open>v\<close> too, fenced or not, for
  a decoder that ignores the whitespace around a document as \<open>json.loads\<close> does.
\<close>

theorem cleaned_response_fenced:
  "cleaned_response (fenced payload) = cleaned_response payload \<and>
   decode_response json_loads (fenced payload) = decode_response json_loads payload \<and>
   cleaned_response (cleaned_response response) = cleaned_response response \<and>
   \<not> py_in BACKTICKS (cleaned_response response) \<and>
   (\<not> py_in BACKTICKS payload \<longrightarrow>
      cleaned_response (fenced payload) = py_strip payload \<and>
      cleaned_response payload = py_strip payload \<and>
      (strip_safe json_loads \<and> json_loads payload = Some v \<longrightarrow>
         json_loads (cleaned_response (fenced payload)) = Some v \<and>
         json_loads (cleaned_response payload) = Some v))"
  using cleaned_response_decodes [of payload json_loads v]
  by (simp add: cleaned_fenced cleaned_response_idem cleaned_without_backticks decode_response_def
      no_backticks_cleaned)

text \<open>
  The empty object with a space on each side, and the decoder of that one document.
\<close>

theorem cleaned_response_fenced_witness:
  "\<not> py_in BACKTICKS (str '' {} '') \<and> strip_safe empty_object_decoder \<and>
   empty_object_decoder (str '' {} '') = Some (PDict []) \<and>
   cleaned_response (fenced (str '' {} '')) = str ''{}'' \<and>
   empty_object_decoder (cleaned_response (fenced (str '' {} ''))) = Some (PDict [])"
proof -
  have n: "\<not> py_in BACKTICKS (str '' {} '')" by (simp add: BACKTICKS_def str_def)
  have d: "empty_object_decoder (str '' {} '') = Some (PDict [])"
    by (simp add: empty_object_decoder_def json_space_def str_def)
  have s: "py_strip (str '' {} '') = str ''{}''" by (simp add: py_strip_def str_def py_isspace_def)
  show ?thesis
    using cleaned_response_fenced
            [where payload = "str '' {} ''" and json_loads = empty_object_decoder and v = "PDict []"
               and response = "[]"]
          n d s
      empty_object_decoder_safe
    by (simp add: empty_object_decoder_def json_space_def str_def)
qed

text \<open>
  C5 as stated fails: a JSON payload with a triple backtick inside a string loses it,
  and the text handed to the decoder is another JSON document.
\<close>

theorem cleaned_response_loses_backticks:
  "py_strip lossy_payload = lossy_payload \<and>
   cleaned_response (fenced lossy_payload) = str ''{\"summary\": \"ab\"}'' \<and>
   cleaned_response (fenced lossy_payload) \<noteq> py_strip lossy_payload"
  by (simp add: lossy_payload_def fenced_def cleaned_response_def py_strip_def py_isspace_def
      BACKTICKS_def BACKTICKS_JSON_def str_def py_replace.simps)

text \<open>
  C6. For every row position and every classification, the write-back leaves every
  cell other than the three cells F, G and H (columns 6, 7 and 8) of that row as it
  was, whether or not the service accepts the request; and when the service accepts
  it, those three cells hold the literal Processed, the summary and the score.
\<close>

theorem update_sheet_three_cells:
  "(\<forall>r c. \<not> (r = row_index \<and> c \<in> {6, 7, 8}) \<longrightarrow>
      sheet (snd (update_sheet e row_index ai_result w)) (r, c) = sheet w (r, c)) \<and>
   (\<forall>kvs. ai_result = PDict kvs \<longrightarrow>
      values_update e (clock w) row_index
        [PStr PROCESSED, dict_get kvs SUMMARY PNone, dict_get kvs ALIGNMENT_SCORE PNone] = None \<longrightarrow>
      fst (update_sheet e row_index ai_result w) = Inr () \<and>
      sheet (snd (update_sheet e row_index ai_result w)) (row_index, 6) = PStr PROCESSED \<and>
      sheet (snd (update_sheet e row_index ai_result w)) (row_index, 7) = dict_get kvs SUMMARY PNone \<and>
      sheet (snd (update_sheet e row_index ai_result w)) (row_index, 8)
        = dict_get kvs ALIGNMENT_SCORE PNone)"
proof -
  have frame: "sheet (snd (update_sheet e row_index ai_result w)) (r, c) = sheet w (r, c)"
    if "\<not> (r = row_index \<and> c \<in> {6, 7, 8})" for r c
    using that write_cells_other [of r row_index c]
    by (cases ai_result) (auto simp: update_sheet_def Let_def split: option.splits)
  have cells: "fst (update_sheet e row_index ai_result w) = Inr () \<and>
      sheet (snd (update_sheet e row_index ai_result w)) (row_index, 6) = PStr PROCESSED \<and>
      sheet (snd (update_sheet e row_index ai_result w)) (row_index, 7) = dict_get kvs SUMMARY PNone \<and>
      sheet (snd (update_sheet e row_index ai_result w)) (row_index, 8)
        = dict_get kvs ALIGNMENT_SCORE PNone"
    if "ai_result = PDict kvs"
      "values_update e (clock w) row_index
        [PStr PROCESSED, dict_get kvs SUMMARY PNone, dict_get kvs ALIGNMENT_SCORE PNone] = None" for kvs
    using that by (simp add: update_sheet_def Let_def write_cells_three)
  show ?thesis using frame cells by blast
qed

theorem update_sheet_three_cells_witness:
  "values_update good_env (clock world0) 2
     [PStr PROCESSED, dict_get good_items SUMMARY PNone, dict_get good_items ALIGNMENT_SCORE PNone] = None \<and>
   fst (update_sheet good_env 2 (PDict good_items) world0) = Inr () \<and>
   sheet (snd (update_sheet good_env 2 (PDict good_items) world0)) (2, 6) = PStr PROCESSED \<and>
   sheet (snd (update_sheet good_env 2 (PDict good_items) world0)) (2, 7)
     = PStr (str ''B2B SaaS for logistics'') \<and>
   sheet (snd (update_sheet good_env 2 (PDict good_items) world0)) (2, 8) = PInt 5 \<and>
   sheet (snd (update_sheet good_env 2 (PDict good_items) world0)) (2, 5) = sheet world0 (2, 5) \<and>
   sheet (snd (update_sheet good_env 2 (PDict good_items) world0)) (3, 6) = sheet world0 (3, 6)"
proof -
  have v: "values_update good_env (clock world0) 2
     [PStr PROCESSED, dict_get good_items SUMMARY PNone, dict_get good_items ALIGNMENT_SCORE PNone] = None"
    by (simp add: good_env_def healthy_fields)
  show ?thesis
    using update_sheet_three_cells [of 2 good_env "PDict good_items" world0] v
    by (simp add: good_items_get)
qed

text \<open>
  C7. For every inquiry whose Opportunity Description is absent or empty, the loop
  body only prints: no completion call (the prompts and the clock stay), no row
  stored, no post, no cell written, no exception; and the loop goes on with the next
  inquiry.
\<close>

theorem process_inquiry_no_description:
  assumes "q OPPORTUNITY_DESCRIPTION = None \<or> q OPPORTUNITY_DESCRIPTION = Some (PStr [])"
  shows "process_inquiry e q w =
           (Inr (), print LogSkipNoDescription (print (LogProcessing (inquiry_get q COMPANY_NAME)) w)) \<and>
         prompts (snd (process_inquiry e q w)) = prompts w \<and>
         clock (snd (process_inquiry e q w)) = clock w \<and>
         db (snd (process_inquiry e q w)) = db w \<and>
         posts (snd (process_inquiry e q w)) = posts w \<and>
         sheet (snd (process_inquiry e q w)) = sheet w \<and>
         process_inquiries e (q # rest) w = process_inquiries e rest (snd (process_inquiry e q w))"
proof -
  have "\<not> truthy (inquiry_get q OPPORTUNITY_DESCRIPTION)"
    using assms by (auto simp: inquiry_get_def)
  then have p: "process_inquiry e q w =
           (Inr (), print LogSkipNoDescription (print (LogProcessing (inquiry_get q COMPANY_NAME)) w))"
    by (simp add: process_inquiry_def Let_def)
  show ?thesis by (simp add: p)
qed

theorem process_inquiry_no_description_witness:
  "blank_inquiry OPPORTUNITY_DESCRIPTION = None \<and>
   fst (process_inquiry good_env blank_inquiry world0) = Inr () \<and>
   prompts (snd (process_inquiry good_env blank_inquiry world0)) = [] \<and>
   db (snd (process_inquiry good_env blank_inquiry world0)) = [] \<and>
   posts (snd (process_inquiry good_env blank_inquiry world0)) = [] \<and>
   process_inquiries good_env [blank_inquiry, crm_inquiry] world0
     = process_inquiries good_env [crm_inquiry] (snd (process_inquiry good_env blank_inquiry world0))"
proof -
  have 1: "blank_inquiry OPPORTUNITY_DESCRIPTION = None"
    by (simp add: blank_inquiry_def columns_distinct [symmetric])
  then have 2: "blank_inquiry OPPORTUNITY_DESCRIPTION = None
                \<or> blank_inquiry OPPORTUNITY_DESCRIPTION = Some (PStr [])" by simp
  have w: "db world0 = []" "posts world0 = []" "prompts world0 = []" by (simp_all add: world0_def)
  show ?thesis
    using process_inquiry_no_description [of blank_inquiry good_env world0 "[crm_inquiry]"] 1 2 w
    by simp
qed

text \<open>
  C8, as amended. Every call to a service answers, and the run ends. It ends with an
  exception in these cases and no other: the credentials do not load; the read of the
  tab raises; or, for an inquiry that is reached and classified, one of the steps that
  follow raises (the connection to the database, the INSERT, the comparison of the
  score with 4, the post to the webhook, the write-back). The exception is not caught:
  it ends the loop at that inquiry (the world the run leaves is the one the body of
  the loop leaves for it) and the process, and the exit status is 1; otherwise the
  exit status is 0. In particular the process exits with status 0 whenever no service
  outside the classifier fails and the data fit the database and the guard: whether or
  not inquiries are found, and whatever the completion call does for each inquiry.
\<close>

theorem main_exit_status:
  "(fst (main e w) = Inl x \<longleftrightarrow>
      credentials e = Some x \<or>
      credentials e = None \<and>
        (sheet_get e = Inl x \<or>
         (\<exists>earlier q later w1 w2 kvs.
            fetch_new_inquiries e (print LogStarting w) = (Inr (earlier @ q # later), w1) \<and>
            process_inquiries e earlier w1 = (Inr (), w2) \<and>
            classification e q w2 = Some kvs \<and> step_raises e q w2 kvs x))) \<and>
   (credentials e = None \<and>
    fetch_new_inquiries e (print LogStarting w) = (Inr (before @ inquiry # rest), wa) \<and>
    process_inquiries e before wa = (Inr (), wb) \<and>
    classification e inquiry wb = Some items \<and> step_raises e inquiry wb items x \<longrightarrow>
    main e w = (Inl x, snd (process_inquiry e inquiry wb))) \<and>
   exit_status (main e w) = (if fst (main e w) = Inr () then 0 else 1) \<and>
   (services_up e \<and> data_fit e \<longrightarrow> fst (main e w) = Inr () \<and> exit_status (main e w) = 0)"
proof -
  have 1: "exit_status (main e w) = (if fst (main e w) = Inr () then 0 else 1)"
    by (cases "fst (main e w)") (simp_all add: exit_status_def)
  have 2: "services_up e \<and> data_fit e \<longrightarrow> fst (main e w) = Inr () \<and> exit_status (main e w) = 0"
    using main_no_raise [of e w] by (simp add: exit_status_def)
  have 3: "credentials e = None \<and>
    fetch_new_inquiries e (print LogStarting w) = (Inr (before @ inquiry # rest), wa) \<and>
    process_inquiries e before wa = (Inr (), wb) \<and>
    classification e inquiry wb = Some items \<and> step_raises e inquiry wb items x \<longrightarrow>
    main e w = (Inl x, snd (process_inquiry e inquiry wb))"
    using main_stops [of e w before inquiry rest wa wb x]
      process_inquiry_raises_iff [of e inquiry wb items x]
    by blast
  show ?thesis using main_raises_iff [of e w x] 1 2 3 by blast
qed

text \<open>
  Runs that exit with status 0: every inquiry classified, the model answering no
  JSON, the completion call raising for every inquiry, an empty tab. Runs that exit
  with status 1: the credentials missing, the read of the tab failing, and, at the
  first inquiry, the database not opening, the score a string, the webhook out of
  reach, the write-back rejected, the score a list that cannot be bound; and, at the
  second inquiry after the completion call raised for the first, the database not
  opening.
\<close>

theorem main_exit_status_witness:
  "services_up good_env \<and> data_fit good_env \<and> exit_status (main good_env world0) = 0 \<and>
   services_up garbled_env \<and> data_fit garbled_env \<and> exit_status (main garbled_env world0) = 0 \<and>
   services_up down_env \<and> data_fit down_env \<and> exit_status (main down_env world0) = 0 \<and>
   services_up (healthy [] ai_down no_decoder) \<and> data_fit (healthy [] ai_down no_decoder) \<and>
   exit_status (main (healthy [] ai_down no_decoder) world0) = 0 \<and>
   credentials no_credentials_env = Some CredentialsError \<and>
   fst (main no_credentials_env world0) = Inl CredentialsError \<and>
   exit_status (main no_credentials_env world0) = 1 \<and>
   sheet_get no_sheet_env = Inl HttpError \<and>
   fst (main no_sheet_env world0) = Inl HttpError \<and>
   exit_status (main no_sheet_env world0) = 1 \<and>
   fst (main no_database_env world0) = Inl DatabaseError \<and>
   exit_status (main no_database_env world0) = 1 \<and>
   fst (main string_score_env world0) = Inl TypeError \<and>
   exit_status (main string_score_env world0) = 1 \<and>
   fst (main slack_down_env world0) = Inl RequestException \<and>
   exit_status (main slack_down_env world0) = 1 \<and>
   fst (main read_only_env world0) = Inl HttpError \<and>
   exit_status (main read_only_env world0) = 1 \<and>
   fst (main second_fails_env world0) = Inl DatabaseError \<and>
   exit_status (main second_fails_env world0) = 1 \<and>
   main no_database_env world0 =
     (Inl DatabaseError,
      snd (process_inquiry no_database_env crm_inquiry
             (print (LogFound 2) (print LogStarting world0)))) \<and>
   fst (main list_score_env world0) = Inl ProgrammingError \<and>
   exit_status (main list_score_env world0) = 1"
proof -
  have a: "exit_status (main good_env world0) = 0" "exit_status (main garbled_env world0) = 0"
    "exit_status (main down_env world0) = 0"
    "exit_status (main (healthy [] ai_down no_decoder) world0) = 0"
    using main_exit_status [of good_env world0, THEN conjunct2, THEN conjunct2] good_env_up
      main_exit_status [of garbled_env world0, THEN conjunct2, THEN conjunct2] garbled_env_up
      main_exit_status [of down_env world0, THEN conjunct2, THEN conjunct2] down_env_up
      main_exit_status [of "healthy [] ai_down no_decoder" world0, THEN conjunct2, THEN conjunct2]
      empty_tab_up
    by simp_all
  have b: "fst (main no_credentials_env world0) = Inl CredentialsError"
    using main_exit_status [of no_credentials_env world0 CredentialsError, THEN conjunct1]
      failing_env_fields(1)
    by blast
  have c: "fst (main no_sheet_env world0) = Inl HttpError"
    using main_exit_status [of no_sheet_env world0 HttpError, THEN conjunct1]
      failing_env_fields(2,3)
    by blast
  have d: "fst (main no_database_env world0) = Inl DatabaseError"
    using main_exit_status [of no_database_env world0 DatabaseError, THEN conjunct1]
      failing_env_fields(4)
      first_inquiry_raises [where w = world0, OF failing_env_fields(5,6) failing_env_steps(1)]
    by blast
  have e: "fst (main string_score_env world0) = Inl TypeError"
    using main_exit_status [of string_score_env world0 TypeError, THEN conjunct1]
      string_score_env_fields(1)
      first_inquiry_raises [where w = world0, OF string_score_env_fields(2,3) failing_env_steps(2)]
    by blast
  have f: "fst (main slack_down_env world0) = Inl RequestException"
    using main_exit_status [of slack_down_env world0 RequestException, THEN conjunct1]
      failing_env_fields(7)
      first_inquiry_raises [where w = world0, OF failing_env_fields(8,9) failing_env_steps(3)]
    by blast
  have g: "fst (main read_only_env world0) = Inl HttpError"
    using main_exit_status [of read_only_env world0 HttpError, THEN conjunct1]
      failing_env_fields(10)
      first_inquiry_raises [where w = world0, OF failing_env_fields(11,12) failing_env_steps(4)]
    by blast
  have h: "fst (main second_fails_env world0) = Inl DatabaseError"
    using main_exit_status [of second_fails_env world0 DatabaseError, THEN conjunct1]
      second_fails_run
    by blast
  have i: "main no_database_env world0 =
     (Inl DatabaseError,
      snd (process_inquiry no_database_env crm_inquiry
             (print (LogFound 2) (print LogStarting world0))))"
    using main_exit_status
            [where e = no_database_env and w = world0 and x = DatabaseError and before = "[]"
               and inquiry = crm_inquiry and rest = "[pos_inquiry]"
               and wa = "print (LogFound 2) (print LogStarting world0)"
               and wb = "print (LogFound 2) (print LogStarting world0)" and items = good_items,
             THEN conjunct2, THEN conjunct1]
      failing_env_fields(4,6) failing_env_steps(1) fetch_three_rows [OF failing_env_fields(5)]
    by (simp add: pos_inquiry_def)
  have j: "fst (main list_score_env world0) = Inl ProgrammingError"
    using main_exit_status [of list_score_env world0 ProgrammingError, THEN conjunct1]
      list_score_env_fields(1)
      first_inquiry_raises [where w = world0, OF list_score_env_fields(2,3,4)]
    by blast
  show ?thesis
    using a b c d e f g h i j good_env_up garbled_env_up down_env_up empty_tab_up
      failing_env_fields(1,3)
    by (simp add: exit_status_def)
qed

text \<open>
  C8 as stated fails: when the INSERT fails for the first inquiry (the table was never
  created), the exception leaves the loop and the process exits with status 1, after
  one completion call, with the other new inquiry left unprocessed.
\<close>

theorem database_failure_exits_1:
  "fst (main no_table_env world0) = Inl DatabaseError \<and>
   exit_status (main no_table_env world0) = 1 \<and>
   prompts (snd (main no_table_env world0)) = [PStr (str ''crm'')]"
proof -
  let ?q2 = "inquiry_at (hd three_rows) (tl three_rows) 2"
  let ?w1 = "print (LogFound 2) (print LogStarting world0)"
  have f: "fetch_new_inquiries no_table_env (print LogStarting world0) = (Inr [crm_inquiry, ?q2], ?w1)"
    by (rule fetch_three_rows) (rule no_table_env_fields)
  have pv: "print_value (dict_get good_items ALIGNMENT_SCORE PNone) = None"
    by (simp add: good_items_get)
  obtain w1' where a: "clock w1' = Suc (clock ?w1)"
    and p: "process_inquiry no_table_env crm_inquiry ?w1 =
           (case store_in_database no_table_env crm_inquiry (PDict good_items) w1' of
              (Inl x, w2) \<Rightarrow> (Inl x, w2)
            | (Inr u, w2) \<Rightarrow>
                (case send_slack_alert no_table_env crm_inquiry (PDict good_items) w2 of
                   (Inl x, w3) \<Rightarrow> (Inl x, w3)
                 | (Inr u, w3) \<Rightarrow>
                     (case crm_inquiry ROW_INDEX of
                        None \<Rightarrow> (Inl KeyError, w3)
                      | Some (PInt row_index) \<Rightarrow> update_sheet no_table_env row_index (PDict good_items) w3
                      | Some v \<Rightarrow> (Inl HttpError, w3))))"
    and pr: "analyze_with_ai no_table_env (inquiry_get crm_inquiry OPPORTUNITY_DESCRIPTION)
               (print (LogProcessing (inquiry_get crm_inquiry COMPANY_NAME)) ?w1) = (Inr (PDict good_items), w1')"
    using process_inquiry_classified
            [OF crm_truthy no_table_env_fields(3) no_table_env_fields(4) good_items_ne(1) pv,
             of ?w1]
    by blast
  have s: "store_in_database no_table_env crm_inquiry (PDict good_items) w1'
             = (Inl DatabaseError, tick (tick w1'))"
    by (simp add: store_in_database_def Let_def no_table_env_fields)
  have pp: "prompts w1' = [PStr (str ''crm'')]"
    using analyze_with_ai_world(5)
            [of no_table_env "inquiry_get crm_inquiry OPPORTUNITY_DESCRIPTION"
                "print (LogProcessing (inquiry_get crm_inquiry COMPANY_NAME)) ?w1"] pr
    by (simp add: world0_def crm_inquiry_fields)
  have m: "main no_table_env world0 = (Inl DatabaseError, tick (tick w1'))"
    by (simp add: main_def Let_def get_google_sheets_service_def no_table_env_fields f p s)
  show ?thesis by (simp add: m exit_status_def pp)
qed





text \<open>
  C10. For every response whose cleaned text decodes to a falsy value, the loop body
  ends without an exception, leaves the table, the posts and the sheet as they were,
  and the loop goes on with the next inquiry. For the empty object the classifier
  itself returns the object, not \<open>None\<close>: the skip comes from the truth test of the
  loop.
\<close>

theorem process_inquiry_falsy_result:
  assumes "truthy (inquiry_get q OPPORTUNITY_DESCRIPTION)"
    and "generate_content e (clock w) (inquiry_get q OPPORTUNITY_DESCRIPTION) = AIText t"
    and "loads e (cleaned_response t) = Some v"
    and "\<not> truthy v"
  shows "fst (process_inquiry e q w) = Inr () \<and>
         db (snd (process_inquiry e q w)) = db w \<and>
         posts (snd (process_inquiry e q w)) = posts w \<and>
         sheet (snd (process_inquiry e q w)) = sheet w \<and>
         process_inquiries e (q # rest) w = process_inquiries e rest (snd (process_inquiry e q w)) \<and>
         (v = PDict [] \<longrightarrow>
            fst (analyze_with_ai e (inquiry_get q OPPORTUNITY_DESCRIPTION)
                  (print (LogProcessing (inquiry_get q COMPANY_NAME)) w)) = Inr (PDict []))"
proof -
  let ?d = "inquiry_get q OPPORTUNITY_DESCRIPTION"
  let ?w0 = "print (LogProcessing (inquiry_get q COMPANY_NAME)) w"
  let ?r = "case v of
              PDict kvs \<Rightarrow> (if print_value (dict_get kvs ALIGNMENT_SCORE PNone) = None
                            then PDict kvs else PNone)
            | _ \<Rightarrow> PNone"
  have r: "fst (analyze_with_ai e ?d ?w0) = Inr ?r"
    using assms(2,3) by (simp add: analyze_with_ai_result)
  have f: "\<not> truthy ?r"
    using assms(4) by (cases v) simp_all
  have e: "v = PDict [] \<Longrightarrow> ?r = PDict []" by (simp add: dict_get_def)
  show ?thesis using process_inquiry_skip [OF assms(1) f r, of rest] r e by auto
qed

theorem process_inquiry_falsy_result_witness:
  "truthy (inquiry_get crm_inquiry OPPORTUNITY_DESCRIPTION) \<and>
   generate_content empty_object_env (clock world0) (inquiry_get crm_inquiry OPPORTUNITY_DESCRIPTION)
     = AIText (str ''{}'') \<and>
   loads empty_object_env (cleaned_response (str ''{}'')) = Some (PDict []) \<and>
   \<not> truthy (PDict []) \<and>
   fst (process_inquiry empty_object_env crm_inquiry world0) = Inr () \<and>
   db (snd (process_inquiry empty_object_env crm_inquiry world0)) = [] \<and>
   posts (snd (process_inquiry empty_object_env crm_inquiry world0)) = [] \<and>
   fst (analyze_with_ai empty_object_env (inquiry_get crm_inquiry OPPORTUNITY_DESCRIPTION)
          (print (LogProcessing (inquiry_get crm_inquiry COMPANY_NAME)) world0)) = Inr (PDict [])"
proof -
  let ?d = "inquiry_get crm_inquiry OPPORTUNITY_DESCRIPTION"
  have 2: "generate_content empty_object_env (clock world0) ?d = AIText (str ''{}'')"
    by (simp add: empty_object_env_def healthy_fields ai_says_def)
  have 3: "loads empty_object_env (cleaned_response (str ''{}'')) = Some (PDict [])"
    by (simp add: empty_object_env_def healthy_fields example_clean decoder_of_def)
  have 4: "\<not> truthy (PDict [])" by simp
  have w: "db world0 = []" "posts world0 = []" by (simp_all add: world0_def)
  show ?thesis
    using process_inquiry_falsy_result [OF crm_truthy 2 3 4, of "[]"] crm_truthy 2 3 w by simp
qed

end
